theory Spec2Isabelle
  imports Main "HOL-Library.Word"
begin

unbundle bit_operations_syntax

section \<open>Virtual memory manager: the data model\<close>

text \<open>
  The model follows \<^verbatim>\<open>vmm.c\<close>. The C globals of each component (physical memory, page
  table, backing store, lookaside buffer) are the fields of one record per component, and
  the engine's record holds the four components and the three statistics counters. Every
  function takes the state it reads and returns the state it leaves. The debug output and
  \<^verbatim>\<open>shutdown_mmu\<close>, which frees the blocks and prints two percentages, are left out.

  Fixed-width unsigned integers are words, so that \<^verbatim>\<open>g_physical_index++\<close> and the
  conversions to \<^verbatim>\<open>uint32_t\<close> wrap as in C. \<^verbatim>\<open>size_t\<close> is taken 64 bits wide.
  \<^verbatim>\<open>int32_t\<close> is a 32-bit word read in two's complement: the C constant \<^verbatim>\<open>-1\<close> is
  the word \<open>- 1\<close> of every width. The statistics counters and the loop indices have the C
  type \<^verbatim>\<open>int\<close>; they are modelled as unbounded integers and naturals (a run long enough
  to overflow them is outside the model).
\<close>

type_synonym uint8_t = "8 word"
type_synonym uint16_t = "16 word"
type_synonym uint32_t = "32 word"
type_synonym int32_t = "32 word"
type_synonym size_t = "64 word"

datatype PAGE_RESULT = PAGE_FAULT | PAGE_SUCCESS

datatype TLB_RESULT = TLB_MISS | TLB_HIT

record virtualmem_t =
  page :: uint8_t
  offset :: uint8_t

text \<open>
  The ways a call can end other than by returning: \<^verbatim>\<open>exit(EXIT_FAILURE)\<close>, a failed
  \<^verbatim>\<open>assert\<close>, and the two kinds of undefined behaviour the code can run into, an array
  access outside its block and a remainder by zero.
\<close>

datatype error = Exit_failure | Assertion_failed | Out_of_bounds | Division_by_zero

text \<open>
  \<^verbatim>\<open>malloc\<close> either fails (\<open>Null\<close>) or returns a block whose cells hold indeterminate
  values: the environment supplies them as a function of the cell's index. A function
  that calls \<^verbatim>\<open>malloc\<close> takes what the call returns as its first argument \<open>heap\<close>.
  \<open>memcpy dest at src n\<close> is \<^verbatim>\<open>memcpy(dest + at, src, n)\<close>; it is defined when the \<open>n\<close>
  bytes lie inside both blocks.
\<close>

datatype 'a block = Null | Block "nat \<Rightarrow> 'a"

definition malloc :: "'a block \<Rightarrow> nat \<Rightarrow> 'a list option" where
  "malloc blk n = (case blk of Null \<Rightarrow> None | Block cell \<Rightarrow> Some (map cell [0..<n]))"

definition memcpy :: "uint8_t list \<Rightarrow> nat \<Rightarrow> uint8_t list \<Rightarrow> nat \<Rightarrow> error + uint8_t list" where
  "memcpy dest at src n =
     (if at + n \<le> length dest \<and> n \<le> length src
      then Inr (take at dest @ take n src @ drop (at + n) dest)
      else Inl Out_of_bounds)"

subsection \<open>Utilities\<close>

definition page_offset :: "uint32_t \<Rightarrow> virtualmem_t" where
  "page_offset addr =
     (let eax = addr;
          ax = (ucast (eax AND 0xFFFF) :: uint16_t);
          ah = (ucast (drop_bit 8 ax) :: uint8_t);
          al = (ucast (ax AND 0xFF) :: uint8_t)
      in \<lparr>page = ah, offset = al\<rparr>)"

subsection \<open>Physical memory\<close>

record physical_t =
  FRAME_SIZE :: size_t
  FRAME_N :: size_t
  g_physical :: "uint8_t list"
  g_physical_index :: uint8_t

definition init_physical :: "uint8_t block \<Rightarrow> size_t \<Rightarrow> size_t \<Rightarrow> error + physical_t" where
  "init_physical heap entries sz =
     (case malloc heap (unat (sz * entries)) of
        None \<Rightarrow> Inl Exit_failure
      | Some mem \<Rightarrow>
          Inr \<lparr>FRAME_SIZE = sz, FRAME_N = entries, g_physical = mem, g_physical_index = - 1\<rparr>)"

definition physical_insert :: "physical_t \<Rightarrow> uint8_t list \<Rightarrow> size_t \<Rightarrow> error + physical_t" where
  "physical_insert p addr sz =
     (let i = g_physical_index p + 1;
          index = FRAME_N p * ucast i
      in case memcpy (g_physical p) (unat index) addr (unat sz) of
           Inl e \<Rightarrow> Inl e
         | Inr mem \<Rightarrow> Inr (p\<lparr>g_physical_index := i, g_physical := mem\<rparr>))"

definition physical_index :: "physical_t \<Rightarrow> uint32_t" where
  "physical_index p = (let index = FRAME_N p * ucast (g_physical_index p) in ucast index)"

definition physical_value :: "physical_t \<Rightarrow> uint32_t \<Rightarrow> error + uint8_t" where
  "physical_value p addr =
     (let i = sint addr
      in if 0 \<le> i \<and> nat i < length (g_physical p)
         then Inr (g_physical p ! nat i)
         else Inl Out_of_bounds)"

text \<open>
  A run of allocations, as the engine issues them one page fault after the other: each
  request is the staging buffer and the number of bytes to copy.
\<close>

fun physical_inserts :: "physical_t \<Rightarrow> (uint8_t list \<times> size_t) list \<Rightarrow> error + physical_t" where
  "physical_inserts p [] = Inr p"
| "physical_inserts p (req # reqs) =
     (case physical_insert p (fst req) (snd req) of
        Inl e \<Rightarrow> Inl e
      | Inr p' \<Rightarrow> physical_inserts p' reqs)"

subsection \<open>Page table\<close>

text \<open>
  The block of \<open>init_pmt\<close> has \<^verbatim>\<open>entries * sizeof(int32_t)\<close> bytes, computed in \<^verbatim>\<open>size_t\<close>,
  hence that many bytes divided by 4 cells. \<open>pmt_fill i sz t\<close> is the loop
  \<^verbatim>\<open>for (; i < size; i++) g_pmt[i] = -1\<close>.
\<close>

record pmt_t =
  PAGE_SIZE :: size_t
  PAGE_N :: size_t
  g_pmt :: "int32_t list"

function pmt_fill :: "nat \<Rightarrow> nat \<Rightarrow> int32_t list \<Rightarrow> error + int32_t list" where
  "pmt_fill i sz t =
     (if i < sz
      then (if i < length t then pmt_fill (i + 1) sz (t[i := - 1]) else Inl Out_of_bounds)
      else Inr t)"
  by pat_completeness auto
termination
  by (relation "measure (\<lambda>(i, sz, t). sz - i)") auto

definition init_pmt :: "int32_t block \<Rightarrow> size_t \<Rightarrow> size_t \<Rightarrow> error + pmt_t" where
  "init_pmt heap entries sz =
     (case malloc heap (unat (entries * 4) div 4) of
        None \<Rightarrow> Inl Exit_failure
      | Some t \<Rightarrow>
          (case pmt_fill 0 (unat sz) t of
             Inl e \<Rightarrow> Inl e
           | Inr t' \<Rightarrow> Inr \<lparr>PAGE_SIZE = sz, PAGE_N = entries, g_pmt = t'\<rparr>))"

definition pmt_search :: "pmt_t \<Rightarrow> uint8_t \<Rightarrow> error + PAGE_RESULT" where
  "pmt_search t pg =
     (if unat pg < length (g_pmt t)
      then Inr (if g_pmt t ! unat pg = - 1 then PAGE_FAULT else PAGE_SUCCESS)
      else Inl Out_of_bounds)"

definition pmt_get :: "pmt_t \<Rightarrow> uint8_t \<Rightarrow> error + uint32_t" where
  "pmt_get t pg =
     (if unat pg < length (g_pmt t) then Inr (g_pmt t ! unat pg) else Inl Out_of_bounds)"

definition pmt_insert :: "pmt_t \<Rightarrow> uint8_t \<Rightarrow> uint32_t \<Rightarrow> error + pmt_t" where
  "pmt_insert t pg frame =
     (if unat pg < length (g_pmt t)
      then Inr (t\<lparr>g_pmt := (g_pmt t)[unat pg := frame]\<rparr>)
      else Inl Out_of_bounds)"

definition pmt_page_n :: "pmt_t \<Rightarrow> size_t" where
  "pmt_page_n t = PAGE_N t"

subsection \<open>Backing store\<close>

text \<open>
  The open stream: the bytes of the file and the position indicator. \<open>init_backingstore\<close>
  takes what \<^verbatim>\<open>fopen\<close> finds under the path: the file's bytes, or nothing. \<open>fseek\<close> is
  \<^verbatim>\<open>fseek(f, location, SEEK_SET)\<close>, whose offset is a \<^verbatim>\<open>long\<close>: a negative one fails and
  leaves the position where it was (the code ignores the result). \<open>fread\<close> returns the
  number of complete items read, the bytes read and the stream.
\<close>

record file_t =
  contents :: "uint8_t list"
  pos :: nat

definition init_backingstore :: "uint8_t list option \<Rightarrow> error + file_t" where
  "init_backingstore f =
     (case f of None \<Rightarrow> Inl Exit_failure | Some bytes \<Rightarrow> Inr \<lparr>contents = bytes, pos = 0\<rparr>)"

definition fseek :: "file_t \<Rightarrow> size_t \<Rightarrow> file_t" where
  "fseek f location = (if sint location < 0 then f else f\<lparr>pos := unat location\<rparr>)"

definition fread :: "file_t \<Rightarrow> nat \<Rightarrow> nat \<Rightarrow> nat \<times> uint8_t list \<times> file_t" where
  "fread f sz nmemb =
     (if sz = 0 \<or> nmemb = 0 then (0, [], f)
      else (let got = take (sz * nmemb) (drop (pos f) (contents f))
            in (length got div sz, got, f\<lparr>pos := pos f + length got\<rparr>)))"

definition backingstore_get ::
  "uint8_t block \<Rightarrow> file_t \<Rightarrow> uint8_t \<Rightarrow> size_t \<Rightarrow> error + (uint8_t list \<times> file_t)" where
  "backingstore_get heap g off page_n =
     (let blocks = 1
      in case malloc heap (unat page_n) of
           None \<Rightarrow> Inl Exit_failure
         | Some phys_addr \<Rightarrow>
             (let location = ucast off * page_n;
                  g1 = fseek g location;
                  r = fread g1 (unat page_n) blocks
              in if fst r \<noteq> blocks then Inl Exit_failure
                 else Inr (fst (snd r) @ drop (length (fst (snd r))) phys_addr, snd (snd r))))"

subsection \<open>Table lookaside buffer\<close>

text \<open>
  A slot is a \<^verbatim>\<open>tlb_t\<close>, whose fields \<^verbatim>\<open>page\<close> and \<^verbatim>\<open>frame\<close> are called \<open>tlb_page\<close> and
  \<open>tlb_frame\<close> here (\<open>page\<close> is taken by \<^verbatim>\<open>virtualmem_t\<close>); its size is 8 bytes. \<open>hashCode\<close>
  computes \<^verbatim>\<open>key % TLB_SIZE\<close> in \<^verbatim>\<open>size_t\<close>.
\<close>

record tlb_t =
  tlb_page :: uint8_t
  tlb_frame :: uint32_t

record tlb_state =
  TLB_SIZE :: size_t
  g_tlb :: "tlb_t list"
  g_tlb_index :: uint8_t

definition hashCode :: "tlb_state \<Rightarrow> uint8_t \<Rightarrow> error + nat" where
  "hashCode t key =
     (if TLB_SIZE t = 0 then Inl Division_by_zero else Inr (unat (ucast key mod TLB_SIZE t)))"

function tlb_fill :: "nat \<Rightarrow> nat \<Rightarrow> tlb_t list \<Rightarrow> error + tlb_t list" where
  "tlb_fill i sz t =
     (if i < sz
      then (if i < length t
            then tlb_fill (i + 1) sz (t[i := (t ! i)\<lparr>tlb_page := - 1, tlb_frame := - 1\<rparr>])
            else Inl Out_of_bounds)
      else Inr t)"
  by pat_completeness auto
termination
  by (relation "measure (\<lambda>(i, sz, t). sz - i)") auto

definition init_tlb :: "tlb_t block \<Rightarrow> size_t \<Rightarrow> error + tlb_state" where
  "init_tlb heap sz =
     (case malloc heap (unat (8 * sz) div 8) of
        None \<Rightarrow> Inl Exit_failure
      | Some t \<Rightarrow>
          (case tlb_fill 0 (unat sz) t of
             Inl e \<Rightarrow> Inl e
           | Inr t' \<Rightarrow> Inr \<lparr>TLB_SIZE = sz, g_tlb = t', g_tlb_index = 0\<rparr>))"

definition tlb_insert :: "tlb_state \<Rightarrow> uint8_t \<Rightarrow> uint32_t \<Rightarrow> error + tlb_state" where
  "tlb_insert t pg frame =
     (case hashCode t pg of
        Inl e \<Rightarrow> Inl e
      | Inr hash \<Rightarrow>
          (if hash < length (g_tlb t)
           then Inr (t\<lparr>g_tlb := (g_tlb t)[hash := (g_tlb t ! hash)\<lparr>tlb_page := pg, tlb_frame := frame\<rparr>]\<rparr>)
           else Inl Out_of_bounds))"

definition tlb_search :: "tlb_state \<Rightarrow> uint8_t \<Rightarrow> error + TLB_RESULT" where
  "tlb_search t pg =
     (case hashCode t pg of
        Inl e \<Rightarrow> Inl e
      | Inr hash \<Rightarrow>
          (if hash < length (g_tlb t)
           then Inr (if tlb_page (g_tlb t ! hash) = pg then TLB_HIT else TLB_MISS)
           else Inl Out_of_bounds))"

definition tlb_get :: "tlb_state \<Rightarrow> uint8_t \<Rightarrow> error + uint32_t" where
  "tlb_get t pg =
     (case hashCode t pg of
        Inl e \<Rightarrow> Inl e
      | Inr hash \<Rightarrow>
          (if hash < length (g_tlb t)
           then Inr (if tlb_page (g_tlb t ! hash) = pg then tlb_frame (g_tlb t ! hash) else - 1)
           else Inl Out_of_bounds))"

subsection \<open>Memory management unit\<close>

record mmu =
  mmu_initialized :: bool
  g_pagefault :: int
  g_tlbhit :: int
  g_translated :: int
  physical :: physical_t
  backing :: file_t
  pmt :: pmt_t
  tlb :: tlb_state

definition init_mmu ::
  "uint8_t list option \<Rightarrow> uint8_t block \<Rightarrow> int32_t block \<Rightarrow> tlb_t block \<Rightarrow>
   size_t \<Rightarrow> size_t \<Rightarrow> size_t \<Rightarrow> size_t \<Rightarrow> size_t \<Rightarrow> error + mmu" where
  "init_mmu store heap_physical heap_pmt heap_tlb page_n page_size frame_n frame_size tlb_size =
     (case init_physical heap_physical frame_n frame_size of
        Inl e \<Rightarrow> Inl e
      | Inr ph \<Rightarrow>
     (case init_backingstore store of
        Inl e \<Rightarrow> Inl e
      | Inr bs \<Rightarrow>
     (case init_pmt heap_pmt page_n page_size of
        Inl e \<Rightarrow> Inl e
      | Inr pt \<Rightarrow>
     (case init_tlb heap_tlb tlb_size of
        Inl e \<Rightarrow> Inl e
      | Inr tb \<Rightarrow>
          Inr \<lparr>mmu_initialized = True, g_pagefault = 0, g_tlbhit = 0, g_translated = 0,
               physical = ph, backing = bs, pmt = pt, tlb = tb\<rparr>))))"

definition mmu_findframe :: "uint8_t block \<Rightarrow> mmu \<Rightarrow> uint32_t \<Rightarrow> error + (mmu \<times> uint32_t)" where
  "mmu_findframe heap s addr =
     (let virt_mem = page_offset addr
      in case tlb_search (tlb s) (page virt_mem) of
           Inl e \<Rightarrow> Inl e
         | Inr TLB_HIT \<Rightarrow>
             (case tlb_get (tlb s) (page virt_mem) of
                Inl e \<Rightarrow> Inl e
              | Inr frame \<Rightarrow> Inr (s\<lparr>g_tlbhit := g_tlbhit s + 1\<rparr>, frame))
         | Inr TLB_MISS \<Rightarrow>
             (case pmt_search (pmt s) (page virt_mem) of
                Inl e \<Rightarrow> Inl e
              | Inr PAGE_SUCCESS \<Rightarrow>
                  (case pmt_get (pmt s) (page virt_mem) of
                     Inl e \<Rightarrow> Inl e
                   | Inr frame \<Rightarrow>
                       (case tlb_insert (tlb s) (page virt_mem) frame of
                          Inl e \<Rightarrow> Inl e
                        | Inr tb \<Rightarrow> Inr (s\<lparr>tlb := tb\<rparr>, frame)))
              | Inr PAGE_FAULT \<Rightarrow>
                  (let page_n = pmt_page_n (pmt s)
                   in case backingstore_get heap (backing s) (page virt_mem) page_n of
                        Inl e \<Rightarrow> Inl e
                      | Inr got \<Rightarrow>
                          (case physical_insert (physical s) (fst got) page_n of
                             Inl e \<Rightarrow> Inl e
                           | Inr ph \<Rightarrow>
                               (let frame = physical_index ph
                                in case pmt_insert (pmt s) (page virt_mem) frame of
                                     Inl e \<Rightarrow> Inl e
                                   | Inr pt \<Rightarrow>
                                       (case tlb_insert (tlb s) (page virt_mem) frame of
                                          Inl e \<Rightarrow> Inl e
                                        | Inr tb \<Rightarrow>
                                            Inr (s\<lparr>g_pagefault := g_pagefault s + 1,
                                                   backing := snd got, physical := ph,
                                                   pmt := pt, tlb := tb\<rparr>, frame)))))))"

definition mmu_getphysical :: "uint8_t block \<Rightarrow> mmu \<Rightarrow> uint32_t \<Rightarrow> error + (mmu \<times> uint32_t)" where
  "mmu_getphysical heap s logical =
     (if \<not> mmu_initialized s then Inl Assertion_failed
      else (let s1 = s\<lparr>g_translated := g_translated s + 1\<rparr>;
                virt_mem = page_offset logical
            in case mmu_findframe heap s1 logical of
                 Inl e \<Rightarrow> Inl e
               | Inr r \<Rightarrow> Inr (fst r, snd r + ucast (offset virt_mem))))"

definition mmu_getvalue :: "mmu \<Rightarrow> uint32_t \<Rightarrow> error + uint8_t" where
  "mmu_getvalue s phys =
     (if \<not> mmu_initialized s then Inl Assertion_failed else physical_value (physical s) phys)"

text \<open>
  A run of translations, one call of \<open>mmu_getphysical\<close> after the other as in the loop of
  \<^verbatim>\<open>main.c\<close>: each request is the block the heap would hand out and the logical address.
\<close>

fun mmu_getphysicals :: "mmu \<Rightarrow> (uint8_t block \<times> uint32_t) list \<Rightarrow> error + mmu" where
  "mmu_getphysicals s [] = Inr s"
| "mmu_getphysicals s (req # reqs) =
     (case mmu_getphysical (fst req) s (snd req) of
        Inl e \<Rightarrow> Inl e
      | Inr r \<Rightarrow> mmu_getphysicals (fst r) reqs)"

section \<open>Sample runs\<close>

text \<open>
  Concrete states for the configuration of \<^verbatim>\<open>main.c\<close> (256 page-table entries, 256-byte
  pages, 256 frames of 256 bytes, 16 buffer slots). The heap hands out zeroed blocks. In
  the backing store page 0 holds the byte 7, page 1 the byte 42 and every later page the
  byte 9. \<open>sample_boot\<close> is the state after \<open>init_mmu\<close>, \<open>sample_after_1\<close> the state after
  translating \<^verbatim>\<open>0x0100\<close> (page 1) from there, and \<open>sample_after_17\<close> the state after then
  translating \<^verbatim>\<open>0x1100\<close> (page 17, the same buffer slot as page 1).
\<close>

definition zero_fill :: "nat \<Rightarrow> 'a::zero" where
  "zero_fill i = 0"

definition tlb_zero_fill :: "nat \<Rightarrow> tlb_t" where
  "tlb_zero_fill i = \<lparr>tlb_page = 0, tlb_frame = 0\<rparr>"

definition sample_store :: "uint8_t list" where
  "sample_store = replicate 256 7 @ replicate 256 42 @ replicate 65024 9"

definition sample_boot :: mmu where
  "sample_boot =
     \<lparr>mmu_initialized = True, g_pagefault = 0, g_tlbhit = 0, g_translated = 0,
      physical = \<lparr>FRAME_SIZE = 256, FRAME_N = 256, g_physical = replicate 65536 0,
                  g_physical_index = 255\<rparr>,
      backing = \<lparr>contents = sample_store, pos = 0\<rparr>,
      pmt = \<lparr>PAGE_SIZE = 256, PAGE_N = 256, g_pmt = replicate 256 0xFFFFFFFF\<rparr>,
      tlb = \<lparr>TLB_SIZE = 16,
             g_tlb = replicate 16 \<lparr>tlb_page = 255, tlb_frame = 0xFFFFFFFF\<rparr>,
             g_tlb_index = 0\<rparr>\<rparr>"

definition sample_after_1 :: mmu where
  "sample_after_1 =
     \<lparr>mmu_initialized = True, g_pagefault = 1, g_tlbhit = 0, g_translated = 1,
      physical = \<lparr>FRAME_SIZE = 256, FRAME_N = 256,
                  g_physical = replicate 256 42 @ replicate 65280 0,
                  g_physical_index = 0\<rparr>,
      backing = \<lparr>contents = sample_store, pos = 512\<rparr>,
      pmt = \<lparr>PAGE_SIZE = 256, PAGE_N = 256, g_pmt = (replicate 256 0xFFFFFFFF)[1 := 0]\<rparr>,
      tlb = \<lparr>TLB_SIZE = 16,
             g_tlb = (replicate 16 \<lparr>tlb_page = 255, tlb_frame = 0xFFFFFFFF\<rparr>)
                       [1 := \<lparr>tlb_page = 1, tlb_frame = 0\<rparr>],
             g_tlb_index = 0\<rparr>\<rparr>"

definition sample_after_17 :: mmu where
  "sample_after_17 =
     \<lparr>mmu_initialized = True, g_pagefault = 2, g_tlbhit = 0, g_translated = 2,
      physical = \<lparr>FRAME_SIZE = 256, FRAME_N = 256,
                  g_physical = replicate 256 42 @ replicate 256 9 @ replicate 65024 0,
                  g_physical_index = 1\<rparr>,
      backing = \<lparr>contents = sample_store, pos = 4608\<rparr>,
      pmt = \<lparr>PAGE_SIZE = 256, PAGE_N = 256,
             g_pmt = (replicate 256 0xFFFFFFFF)[1 := 0, 17 := 256]\<rparr>,
      tlb = \<lparr>TLB_SIZE = 16,
             g_tlb = (replicate 16 \<lparr>tlb_page = 255, tlb_frame = 0xFFFFFFFF\<rparr>)
                       [1 := \<lparr>tlb_page = 17, tlb_frame = 256\<rparr>],
             g_tlb_index = 0\<rparr>\<rparr>"

text \<open>
  The physical memory of that configuration after \<open>j\<close> allocations of a page of 7s.
\<close>

definition sample_filled :: "nat \<Rightarrow> physical_t" where
  "sample_filled j =
     \<lparr>FRAME_SIZE = 256, FRAME_N = 256,
      g_physical = replicate (256 * j) 7 @ replicate (65536 - 256 * j) 0,
      g_physical_index = word_of_nat j - 1\<rparr>"




text \<open>
  The second has 4294967295 frames of 4 bytes, a physical memory of 17179869180 bytes.
  \<open>huge_boot\<close> is the state after \<open>init_mmu\<close>; the four states after it are reached by
  translating, in this order, \<^verbatim>\<open>0x1100\<close> (page 17), \<^verbatim>\<open>0x0100\<close> (page 1), \<^verbatim>\<open>0x1100\<close> again
  and \<^verbatim>\<open>0x0100\<close> again.
\<close>

definition huge_boot :: mmu where
  "huge_boot =
     \<lparr>mmu_initialized = True, g_pagefault = 0, g_tlbhit = 0, g_translated = 0,
      physical = \<lparr>FRAME_SIZE = 4, FRAME_N = 4294967295, g_physical = replicate 17179869180 0,
                  g_physical_index = 255\<rparr>,
      backing = \<lparr>contents = sample_store, pos = 0\<rparr>,
      pmt = \<lparr>PAGE_SIZE = 256, PAGE_N = 256, g_pmt = replicate 256 0xFFFFFFFF\<rparr>,
      tlb = \<lparr>TLB_SIZE = 16,
             g_tlb = replicate 16 \<lparr>tlb_page = 255, tlb_frame = 0xFFFFFFFF\<rparr>,
             g_tlb_index = 0\<rparr>\<rparr>"

definition huge_after_17 :: mmu where
  "huge_after_17 =
     \<lparr>mmu_initialized = True, g_pagefault = 1, g_tlbhit = 0, g_translated = 1,
      physical = \<lparr>FRAME_SIZE = 4, FRAME_N = 4294967295,
                  g_physical = replicate 256 9 @ replicate 17179868924 0,
                  g_physical_index = 0\<rparr>,
      backing = \<lparr>contents = sample_store, pos = 4608\<rparr>,
      pmt = \<lparr>PAGE_SIZE = 256, PAGE_N = 256, g_pmt = (replicate 256 0xFFFFFFFF)[17 := 0]\<rparr>,
      tlb = \<lparr>TLB_SIZE = 16,
             g_tlb = (replicate 16 \<lparr>tlb_page = 255, tlb_frame = 0xFFFFFFFF\<rparr>)
                       [1 := \<lparr>tlb_page = 17, tlb_frame = 0\<rparr>],
             g_tlb_index = 0\<rparr>\<rparr>"

definition huge_after_1 :: mmu where
  "huge_after_1 =
     \<lparr>mmu_initialized = True, g_pagefault = 2, g_tlbhit = 0, g_translated = 2,
      physical = \<lparr>FRAME_SIZE = 4, FRAME_N = 4294967295,
                  g_physical = replicate 256 9 @ replicate 4294967039 0 @ replicate 256 42
                                 @ replicate 12884901629 0,
                  g_physical_index = 1\<rparr>,
      backing = \<lparr>contents = sample_store, pos = 512\<rparr>,
      pmt = \<lparr>PAGE_SIZE = 256, PAGE_N = 256,
             g_pmt = (replicate 256 0xFFFFFFFF)[17 := 0, 1 := 0xFFFFFFFF]\<rparr>,
      tlb = \<lparr>TLB_SIZE = 16,
             g_tlb = (replicate 16 \<lparr>tlb_page = 255, tlb_frame = 0xFFFFFFFF\<rparr>)
                       [1 := \<lparr>tlb_page = 1, tlb_frame = 0xFFFFFFFF\<rparr>],
             g_tlb_index = 0\<rparr>\<rparr>"

definition huge_after_17_again :: mmu where
  "huge_after_17_again =
     huge_after_1
       \<lparr>g_translated := 3,
        tlb := \<lparr>TLB_SIZE = 16,
                g_tlb = (replicate 16 \<lparr>tlb_page = 255, tlb_frame = 0xFFFFFFFF\<rparr>)
                          [1 := \<lparr>tlb_page = 17, tlb_frame = 0\<rparr>],
                g_tlb_index = 0\<rparr>\<rparr>"

definition huge_after_1_again :: mmu where
  "huge_after_1_again =
     \<lparr>mmu_initialized = True, g_pagefault = 3, g_tlbhit = 0, g_translated = 4,
      physical = \<lparr>FRAME_SIZE = 4, FRAME_N = 4294967295,
                  g_physical = replicate 256 9 @ replicate 4294967039 0 @ replicate 256 42
                                 @ replicate 4294967039 0 @ replicate 256 42
                                 @ replicate 8589934334 0,
                  g_physical_index = 2\<rparr>,
      backing = \<lparr>contents = sample_store, pos = 512\<rparr>,
      pmt = \<lparr>PAGE_SIZE = 256, PAGE_N = 256,
             g_pmt = (replicate 256 0xFFFFFFFF)[17 := 0, 1 := 0xFFFFFFFE]\<rparr>,
      tlb = \<lparr>TLB_SIZE = 16,
             g_tlb = (replicate 16 \<lparr>tlb_page = 255, tlb_frame = 0xFFFFFFFF\<rparr>)
                       [1 := \<lparr>tlb_page = 1, tlb_frame = 0xFFFFFFFE\<rparr>],
             g_tlb_index = 0\<rparr>\<rparr>"




section \<open>Address decomposition\<close>

lemma low_byte_mask: "(0xFF :: 'a::len word) = mask 8"
  by (simp add: mask_eq_exp_minus_1)

lemma low_half_mask: "(0xFFFF :: 'a::len word) = mask 16"
  by (simp add: mask_eq_exp_minus_1)

lemma high_byte_mask: "(0xFF00 :: uint32_t) = push_bit 8 (mask 8)"
  by (simp add: mask_eq_exp_minus_1)

lemma page_offset_page: "ucast (page (page_offset addr)) = drop_bit 8 (addr AND 0xFF00)"
  by (auto simp add: page_offset_def Let_def low_byte_mask low_half_mask high_byte_mask
        bit_eq_iff bit_simps)

lemma page_offset_offset: "ucast (offset (page_offset addr)) = addr AND 0xFF"
  by (auto simp add: page_offset_def Let_def low_byte_mask low_half_mask bit_eq_iff bit_simps)

lemma page_offset_high_bits: "page_offset (addr XOR push_bit 16 h) = page_offset addr"
  by (auto simp add: page_offset_def Let_def low_byte_mask low_half_mask bit_eq_iff bit_simps)

text \<open>
  Claim C3. For every 32-bit logical address, \<open>page_offset\<close> (a total function: it has no
  error result) yields the page \<open>(addr & 0xFF00) >> 8\<close> and the offset \<open>addr & 0xFF\<close>, both
  read as 32-bit values, and flipping any of the bits above bit 15 leaves the result
  unchanged.
\<close>

theorem page_offset_decomposition:
  "ucast (page (page_offset addr)) = drop_bit 8 (addr AND 0xFF00)
   \<and> ucast (offset (page_offset addr)) = addr AND 0xFF
   \<and> page_offset (addr XOR push_bit 16 h) = page_offset addr"
  using page_offset_page [of addr] page_offset_offset [of addr] page_offset_high_bits [of addr h]
  by blast

section \<open>Heap blocks and the initialisation loops\<close>

declare pmt_fill.simps [simp del] tlb_fill.simps [simp del]

lemma malloc_Block: "malloc (Block c) n = Some (map c [0..<n])"
  by (simp add: malloc_def)

lemma malloc_Some_length: "malloc heap n = Some xs \<Longrightarrow> length xs = n"
  by (auto simp: malloc_def split: block.splits)

lemma zero_block: "malloc (Block zero_fill) n = Some (replicate n 0)"
  by (simp add: malloc_def zero_fill_def [abs_def] map_replicate_const)

lemma zero_fill_upt: "map zero_fill [a..<b] = replicate (b - a) 0"
  by (simp add: zero_fill_def [abs_def] map_replicate_const)

text \<open>
  The loop of \<open>init_pmt\<close> in closed form: it writes the cells from \<open>i\<close> up to its bound and
  leaves the others as they were, and it runs off the block when the bound exceeds the
  block's length.
\<close>

lemma pmt_fill_ok:
  "i \<le> n \<Longrightarrow> n \<le> length t \<Longrightarrow>
   pmt_fill i n t = Inr (take i t @ replicate (n - i) (- 1) @ drop n t)"
proof (induction i n t rule: pmt_fill.induct)
  case (1 i sz t)
  show ?case
  proof (cases "i < sz")
    case True
    with "1.prems" have len: "i < length t" by simp
    have step: "pmt_fill i sz t = pmt_fill (i + 1) sz (t[i := - 1])"
      using True len by (subst pmt_fill.simps) simp
    have ih: "pmt_fill (i + 1) sz (t[i := - 1]) =
        Inr (take (i + 1) (t[i := - 1]) @ replicate (sz - (i + 1)) (- 1) @ drop sz (t[i := - 1]))"
      using "1.IH" [OF True len] True "1.prems" by simp
    have a: "take (i + 1) (t[i := - 1]) = take i t @ [- 1]"
      using len by (simp add: take_Suc_conv_app_nth)
    have b: "drop sz (t[i := - 1]) = drop sz t"
      using True by simp
    have c: "replicate (sz - i) (- 1 :: int32_t) = (- 1) # replicate (sz - (i + 1)) (- 1)"
      using True by (cases "sz - i") auto
    show ?thesis
      by (simp only: step ih a b c) simp
  next
    case False
    with "1.prems" have "i = sz" by simp
    then show ?thesis
      by (subst pmt_fill.simps) simp
  qed
qed

lemma pmt_fill_overflow:
  "i < n \<Longrightarrow> length t < n \<Longrightarrow> pmt_fill i n t = Inl Out_of_bounds"
proof (induction i n t rule: pmt_fill.induct)
  case (1 i sz t)
  show ?case
  proof (cases "i < length t")
    case True
    have "pmt_fill i sz t = pmt_fill (i + 1) sz (t[i := - 1])"
      using True "1.prems" by (subst pmt_fill.simps) simp
    also have "\<dots> = Inl Out_of_bounds"
      using "1.IH" [OF "1.prems"(1) True] True "1.prems" by simp
    finally show ?thesis .
  next
    case False
    then show ?thesis
      using "1.prems" by (subst pmt_fill.simps) simp
  qed
qed

lemma tlb_sentinel: "(e::tlb_t)\<lparr>tlb_page := a, tlb_frame := b\<rparr> = \<lparr>tlb_page = a, tlb_frame = b\<rparr>"
  by (cases e) simp

lemma tlb_fill_ok:
  "i \<le> n \<Longrightarrow> n \<le> length t \<Longrightarrow>
   tlb_fill i n t =
     Inr (take i t @ replicate (n - i) \<lparr>tlb_page = - 1, tlb_frame = - 1\<rparr> @ drop n t)"
proof (induction i n t rule: tlb_fill.induct)
  case (1 i sz t)
  let ?e = "\<lparr>tlb_page = - 1, tlb_frame = - 1\<rparr>"
  show ?case
  proof (cases "i < sz")
    case True
    with "1.prems" have len: "i < length t" by simp
    have step: "tlb_fill i sz t = tlb_fill (i + 1) sz (t[i := ?e])"
      using True len by (subst tlb_fill.simps) (simp add: tlb_sentinel)
    have ih: "tlb_fill (i + 1) sz (t[i := ?e]) =
        Inr (take (i + 1) (t[i := ?e]) @ replicate (sz - (i + 1)) ?e @ drop sz (t[i := ?e]))"
      using "1.IH" [OF True len] True "1.prems" by (simp add: tlb_sentinel)
    have a: "take (i + 1) (t[i := ?e]) = take i t @ [?e]"
      using len by (simp add: take_Suc_conv_app_nth)
    have b: "drop sz (t[i := ?e]) = drop sz t"
      using True by simp
    have c: "replicate (sz - i) ?e = ?e # replicate (sz - (i + 1)) ?e"
      using True by (cases "sz - i") auto
    show ?thesis
      by (simp only: step ih a b c) simp
  next
    case False
    with "1.prems" have "i = sz" by simp
    then show ?thesis
      by (subst tlb_fill.simps) simp
  qed
qed

lemma tlb_fill_overflow:
  "i < n \<Longrightarrow> length t < n \<Longrightarrow> tlb_fill i n t = Inl Out_of_bounds"
proof (induction i n t rule: tlb_fill.induct)
  case (1 i sz t)
  show ?case
  proof (cases "i < length t")
    case True
    have "tlb_fill i sz t = tlb_fill (i + 1) sz (t[i := (t ! i)\<lparr>tlb_page := - 1, tlb_frame := - 1\<rparr>])"
      using True "1.prems" by (subst tlb_fill.simps) simp
    also have "\<dots> = Inl Out_of_bounds"
      using "1.IH" [OF "1.prems"(1) True] True "1.prems" by simp
    finally show ?thesis .
  next
    case False
    then show ?thesis
      using "1.prems" by (subst tlb_fill.simps) simp
  qed
qed

lemma scaled_block_le: "unat (k * (x :: size_t)) div unat k \<le> unat x"
proof (cases "unat k = 0")
  case True
  then show ?thesis by simp
next
  case False
  have "unat (k * x) \<le> unat k * unat x"
    by (simp add: unat_word_ariths)
  then have "unat (k * x) div unat k \<le> (unat k * unat x) div unat k"
    by (rule div_le_mono)
  with False show ?thesis by simp
qed

lemma init_tlb_Block:
  "init_tlb (Block c) sz =
     (if unat sz \<le> unat (8 * sz) div 8
      then Inr \<lparr>TLB_SIZE = sz, g_tlb = replicate (unat sz) \<lparr>tlb_page = - 1, tlb_frame = - 1\<rparr>,
                g_tlb_index = 0\<rparr>
      else Inl Out_of_bounds)"
proof (cases "unat sz \<le> unat (8 * sz) div 8")
  case True
  moreover have "unat (8 * sz) div 8 \<le> unat sz"
    using scaled_block_le [of 8 sz] by simp
  ultimately have eq: "unat (8 * sz) div 8 = unat sz" by simp
  show ?thesis
    using True by (simp add: init_tlb_def malloc_Block eq tlb_fill_ok)
next
  case False
  then have "0 < unat sz" by simp
  with False show ?thesis
    by (simp add: init_tlb_def malloc_Block tlb_fill_overflow)
qed

lemma init_pmt_Block:
  "init_pmt (Block c) entries sz =
     (if unat sz \<le> unat (entries * 4) div 4
      then Inr \<lparr>PAGE_SIZE = sz, PAGE_N = entries,
                g_pmt = replicate (unat sz) (- 1) @ map c [unat sz..<unat (entries * 4) div 4]\<rparr>
      else Inl Out_of_bounds)"
proof (cases "unat sz \<le> unat (entries * 4) div 4")
  case True
  then show ?thesis
    by (simp add: init_pmt_def malloc_Block pmt_fill_ok drop_map)
next
  case False
  then have "0 < unat sz" by simp
  with False show ?thesis
    by (simp add: init_pmt_def malloc_Block pmt_fill_overflow)
qed

lemma init_physical_Block:
  "init_physical (Block c) entries sz =
     Inr \<lparr>FRAME_SIZE = sz, FRAME_N = entries, g_physical = map c [0..<unat (sz * entries)],
          g_physical_index = - 1\<rparr>"
  by (simp add: init_physical_def malloc_Block)

lemma init_physical_Inr:
  "init_physical heap entries sz = Inr p \<Longrightarrow>
     FRAME_N p = entries \<and> FRAME_SIZE p = sz \<and> g_physical_index p = - 1
   \<and> length (g_physical p) = unat (sz * entries)"
  by (auto simp: init_physical_def dest: malloc_Some_length split: option.splits)

section \<open>Table lookaside buffer\<close>

lemma hashCode_size: "TLB_SIZE t' = TLB_SIZE t \<Longrightarrow> hashCode t' pg = hashCode t pg"
  by (simp add: hashCode_def)

lemma tlb_insert_size: "tlb_insert t pg f = Inr t' \<Longrightarrow> TLB_SIZE t' = TLB_SIZE t"
  by (auto simp: tlb_insert_def split: sum.splits if_splits)

lemma tlb_insert_hit:
  "tlb_insert t pg f = Inr t' \<Longrightarrow> tlb_search t' pg = Inr TLB_HIT \<and> tlb_get t' pg = Inr f"
  by (auto simp: tlb_insert_def tlb_search_def tlb_get_def hashCode_def split: sum.splits if_splits)

lemma tlb_insert_evicts:
  "tlb_insert t p2 f = Inr t' \<Longrightarrow> hashCode t p1 = hashCode t p2 \<Longrightarrow> p1 \<noteq> p2 \<Longrightarrow>
   tlb_search t' p1 = Inr TLB_MISS"
  by (auto simp: tlb_insert_def tlb_search_def hashCode_def split: sum.splits if_splits)

lemma tlb_search_insert:
  "tlb_search t pg = Inr r \<Longrightarrow>
   tlb_insert t pg f =
     Inr (t\<lparr>g_tlb := (g_tlb t)[unat (ucast pg mod TLB_SIZE t) :=
            (g_tlb t ! unat (ucast pg mod TLB_SIZE t))\<lparr>tlb_page := pg, tlb_frame := f\<rparr>]\<rparr>)"
  by (auto simp: tlb_insert_def tlb_search_def hashCode_def split: sum.splits if_splits)

lemma tlb_search_hit_get:
  "tlb_search t pg = Inr TLB_HIT \<Longrightarrow>
   tlb_get t pg = Inr (tlb_frame (g_tlb t ! unat (ucast pg mod TLB_SIZE t)))"
  by (auto simp: tlb_get_def tlb_search_def hashCode_def split: sum.splits if_splits)

lemma tlb_search_hit_other:
  "tlb_search t p2 = Inr TLB_HIT \<Longrightarrow> hashCode t p1 = hashCode t p2 \<Longrightarrow> p1 \<noteq> p2 \<Longrightarrow>
   tlb_search t p1 = Inr TLB_MISS"
  by (auto simp: tlb_search_def hashCode_def split: sum.splits if_splits)

text \<open>
  Claim C2. Right after initialisation a lookup of any page number 0..255 in the lookaside
  buffer is a miss, because the slots hold a page value that no valid page number equals.

  The code does not do that. \<open>init_tlb\<close> stores the constant \<^verbatim>\<open>-1\<close> in the 8-bit page field,
  which is the page number 255. With the 16 slots of \<^verbatim>\<open>main.c\<close>, page 255 hashes to slot 15,
  whose initial page field equals it: the lookup of page 255 in the freshly initialised
  buffer is a hit, and the frame it yields is the initial \<^verbatim>\<open>0xFFFFFFFF\<close>.
\<close>

theorem tlb_sentinel_is_page_255:
  "init_tlb (Block c) 16 =
     Inr \<lparr>TLB_SIZE = 16, g_tlb = replicate 16 \<lparr>tlb_page = 255, tlb_frame = 0xFFFFFFFF\<rparr>,
          g_tlb_index = 0\<rparr>
   \<and> tlb_search \<lparr>TLB_SIZE = 16, g_tlb = replicate 16 \<lparr>tlb_page = 255, tlb_frame = 0xFFFFFFFF\<rparr>,
          g_tlb_index = 0\<rparr> 255 = Inr TLB_HIT
   \<and> tlb_get \<lparr>TLB_SIZE = 16, g_tlb = replicate 16 \<lparr>tlb_page = 255, tlb_frame = 0xFFFFFFFF\<rparr>,
          g_tlb_index = 0\<rparr> 255 = Inr 0xFFFFFFFF"
  by (simp add: init_tlb_Block tlb_search_def tlb_get_def hashCode_def)

section \<open>Page table\<close>

lemma pmt_insert_get:
  "pmt_insert t pg f = Inr t' \<Longrightarrow> pmt_get t' pg = Inr f"
  by (auto simp: pmt_insert_def pmt_get_def split: if_splits)

lemma pmt_insert_search:
  "pmt_insert t pg f = Inr t' \<Longrightarrow>
   pmt_search t' pg = Inr (if f = - 1 then PAGE_FAULT else PAGE_SUCCESS)"
  by (auto simp: pmt_insert_def pmt_search_def split: if_splits)

lemma pmt_insert_other:
  "pmt_insert t pg f = Inr t' \<Longrightarrow> p \<noteq> pg \<Longrightarrow>
   pmt_search t' p = pmt_search t p \<and> pmt_get t' p = pmt_get t p"
proof -
  assume ins: "pmt_insert t pg f = Inr t'" and ne: "p \<noteq> pg"
  from ne have "unat pg \<noteq> unat p"
    by (simp add: word_unat_eq_iff)
  with ins show ?thesis
    by (auto simp: pmt_insert_def pmt_search_def pmt_get_def split: if_splits)
qed

lemma pmt_search_success_get:
  "pmt_search t pg = Inr PAGE_SUCCESS \<Longrightarrow> pmt_get t pg = Inr (g_pmt t ! unat pg)"
  by (auto simp: pmt_search_def pmt_get_def split: if_splits)

text \<open>
  Claim C6. After the page table is built with \<open>page_count\<close> entries, every entry is
  unmapped, so that a lookup before any insert is a page fault, whatever \<open>page_count\<close> and
  \<open>page_size\<close> are.

  The code does not do that when the two differ. \<open>init_pmt\<close> allocates \<open>entries\<close> cells but its
  loop writes the first \<open>size\<close> cells. With 256 entries and a page size of 16, on a heap that
  hands out zeroed memory, the cells 16..255 keep the heap's zeroes: the lookup of page 16
  succeeds and yields the frame base 0, with no insert before it. With 16 entries and a
  page size of 256 the loop writes beyond the block.
\<close>

theorem pmt_left_uninitialised:
  "init_pmt (Block zero_fill) 256 16 =
     Inr \<lparr>PAGE_SIZE = 16, PAGE_N = 256, g_pmt = replicate 16 (- 1) @ replicate 240 0\<rparr>
   \<and> pmt_search \<lparr>PAGE_SIZE = 16, PAGE_N = 256, g_pmt = replicate 16 (- 1) @ replicate 240 0\<rparr> 16
       = Inr PAGE_SUCCESS
   \<and> pmt_get \<lparr>PAGE_SIZE = 16, PAGE_N = 256, g_pmt = replicate 16 (- 1) @ replicate 240 0\<rparr> 16
       = Inr 0
   \<and> init_pmt (Block zero_fill) 16 256 = Inl Out_of_bounds"
  by (simp add: init_pmt_Block zero_fill_upt pmt_search_def pmt_get_def nth_append
        del: upt_rec_numeral)

section \<open>Physical memory\<close>

lemma memcpy_Inr:
  assumes "memcpy dest at src n = Inr m"
  shows "at + n \<le> length dest" and "n \<le> length src" and "length m = length dest"
    and "take n (drop at m) = take n src"
    and "m = take at dest @ take n src @ drop (at + n) dest"
proof -
  show fit: "at + n \<le> length dest" and src: "n \<le> length src"
    using assms by (auto simp: memcpy_def split: if_splits)
  show m: "m = take at dest @ take n src @ drop (at + n) dest"
    using assms by (auto simp: memcpy_def split: if_splits)
  have a: "length (take at dest) = at"
    using fit by simp
  have b: "length (take n src) = n"
    using src by simp
  show "length m = length dest"
    using fit src by (simp add: m)
  have "drop at m = take n src @ drop (at + n) dest"
    unfolding m using a by (metis append_eq_conv_conj)
  then show "take n (drop at m) = take n src"
    using b by simp
qed

lemma physical_insert_Inr:
  assumes "physical_insert p d n = Inr p'"
  shows "FRAME_N p' = FRAME_N p" and "FRAME_SIZE p' = FRAME_SIZE p"
    and "g_physical_index p' = g_physical_index p + 1"
    and "length (g_physical p') = length (g_physical p)"
    and "unat (FRAME_N p * ucast (g_physical_index p + 1)) + unat n \<le> length (g_physical p)"
    and "unat n \<le> length d"
    and "g_physical p' =
           take (unat (FRAME_N p * ucast (g_physical_index p + 1))) (g_physical p) @ take (unat n) d @
           drop (unat (FRAME_N p * ucast (g_physical_index p + 1)) + unat n) (g_physical p)"
  using assms
  by (auto simp: physical_insert_def memcpy_def Let_def split: if_splits sum.splits)

lemma physical_insert_copy:
  assumes "physical_insert p d n = Inr p'"
  shows "take (unat n) (drop (unat (FRAME_N p * ucast (g_physical_index p + 1))) (g_physical p'))
          = take (unat n) d"
  using assms
  by (auto simp: physical_insert_def Let_def dest: memcpy_Inr(4) split: sum.splits)

lemma physical_inserts_Inr:
  "physical_inserts p reqs = Inr p' \<Longrightarrow>
     g_physical_index p' = g_physical_index p + word_of_nat (length reqs)
   \<and> FRAME_N p' = FRAME_N p \<and> FRAME_SIZE p' = FRAME_SIZE p
   \<and> length (g_physical p') = length (g_physical p)"
proof (induction reqs arbitrary: p)
  case Nil
  then show ?case by simp
next
  case (Cons req reqs)
  from Cons.prems obtain q where q: "physical_insert p (fst req) (snd req) = Inr q"
    and rest: "physical_inserts q reqs = Inr p'"
    by (auto split: sum.splits)
  have "g_physical_index p' = g_physical_index q + word_of_nat (length reqs)"
    using Cons.IH [OF rest] by simp
  also have "\<dots> = g_physical_index p + 1 + word_of_nat (length reqs)"
    using physical_insert_Inr(3) [OF q] by simp
  also have "\<dots> = g_physical_index p + word_of_nat (length (req # reqs))"
    by (simp add: add.assoc)
  finally have ix: "g_physical_index p' = g_physical_index p + word_of_nat (length (req # reqs))" .
  from Cons.IH [OF rest] physical_insert_Inr(1,2,4) [OF q] ix show ?case
    by simp
qed

lemma ucast_index: "(ucast (word_of_nat k :: uint8_t) :: size_t) = word_of_nat (k mod 256)"
  by (simp add: unsigned_of_nat take_bit_eq_mod)

lemma ucast_of_nat_down: "(ucast (word_of_nat n :: size_t) :: uint32_t) = word_of_nat n"
  by (simp add: unsigned_of_nat word_of_nat_eq_iff)

lemma frame_base_of_nat:
  "(ucast (entries * word_of_nat m :: size_t) :: uint32_t) = word_of_nat (m * unat entries)"
proof -
  have "(word_of_nat (m * unat entries) :: size_t) = word_of_nat m * word_of_nat (unat entries)"
    by (simp only: of_nat_mult)
  also have "\<dots> = entries * word_of_nat m"
    by (simp only: of_nat_unat ucast_id mult.commute)
  finally have "entries * word_of_nat m = (word_of_nat (m * unat entries) :: size_t)"
    by (rule sym)
  then show ?thesis
    by (simp only: ucast_of_nat_down)
qed

lemma next_index: "- 1 + word_of_nat k + 1 = (word_of_nat k :: uint8_t)"
  by simp

lemma index_after: "unat (- 1 + word_of_nat k :: uint8_t) = (k + 255) mod 256"
proof -
  have "(- 1 + word_of_nat k :: uint8_t) = word_of_nat (k + 255)"
    by simp
  then show ?thesis
    by (simp only: unat_of_nat) simp
qed

lemma index_wraps: "k mod 256 = 0 \<Longrightarrow> (word_of_nat k :: uint8_t) = 0"
  by (simp add: word_unat_eq_iff unat_of_nat)

lemma physical_insert_base_small:
  assumes "physical_insert p d n = Inr p'" and "length (g_physical p) < 4294967295"
  shows "physical_index p' \<noteq> - 1"
proof
  assume eq: "physical_index p' = - 1"
  let ?ix = "FRAME_N p * ucast (g_physical_index p + 1) :: size_t"
  from assms(1) have fit: "unat ?ix + unat n \<le> length (g_physical p)"
    and p': "physical_index p' = ucast ?ix"
    by (auto simp: physical_insert_def physical_index_def memcpy_def Let_def split: if_splits sum.splits)
  from eq p' have "unat (ucast ?ix :: uint32_t) = unat (- 1 :: uint32_t)" by simp
  then have "unat ?ix mod 4294967296 = 4294967295"
    by (simp add: unsigned_ucast_eq take_bit_eq_mod unsigned_minus_1_eq_mask mask_eq_exp_minus_1)
  then have "4294967295 \<le> unat ?ix"
    by (metis mod_less_eq_dividend)
  with fit assms(2) show False by simp
qed

text \<open>
  The sample memory: each of the first 256 allocations of a page of 7s fills the next 256
  bytes.
\<close>

lemma sample_index: "j < 256 \<Longrightarrow> unat (256 * ucast (word_of_nat j :: uint8_t) :: size_t) = 256 * j"
proof -
  assume j: "j < 256"
  have "(256 * ucast (word_of_nat j :: uint8_t) :: size_t) = word_of_nat (256 * j)"
    using j by (simp only: ucast_index of_nat_mult mod_less) simp
  moreover have "unat (word_of_nat (256 * j) :: size_t) = (256 * j) mod 2 ^ 64"
    by (subst unat_of_nat) simp
  ultimately show ?thesis
    using j by (simp only:) simp
qed

lemma sample_filled_step:
  assumes "j < 256"
  shows "physical_insert (sample_filled j) (replicate 256 7) 256 = Inr (sample_filled (Suc j))"
proof -
  have ix: "g_physical_index (sample_filled j) + 1 = word_of_nat j"
    by (simp add: sample_filled_def)
  have at: "unat (FRAME_N (sample_filled j) * ucast (g_physical_index (sample_filled j) + 1)) = 256 * j"
    unfolding ix using sample_index [OF assms] by (simp add: sample_filled_def)
  have fit: "256 * j + 256 \<le> (65536 :: nat)"
    using assms by simp
  have mem: "take (256 * j) (g_physical (sample_filled j)) @ take 256 (replicate 256 7) @
             drop (256 * j + 256) (g_physical (sample_filled j))
           = g_physical (sample_filled (Suc j))"
    using fit by (simp add: sample_filled_def replicate_add [symmetric] del: replicate_Suc)
  have len: "length (g_physical (sample_filled j)) = 65536"
    using fit by (simp add: sample_filled_def)
  show ?thesis
    unfolding physical_insert_def Let_def memcpy_def at
    using fit mem len ix by (simp add: sample_filled_def)
qed

lemma sample_filled_run:
  "j + k \<le> 256 \<Longrightarrow>
   physical_inserts (sample_filled j) (replicate k (replicate 256 7, 256)) = Inr (sample_filled (j + k))"
proof (induction k arbitrary: j)
  case 0
  then show ?case by simp
next
  case (Suc k)
  then have "j < 256" and "Suc j + k \<le> 256" by simp_all
  with Suc.IH [of "Suc j"] sample_filled_step [of j] show ?case
    by simp
qed

lemma sample_filled_256:
  "sample_filled 256 = \<lparr>FRAME_SIZE = 256, FRAME_N = 256, g_physical = replicate 65536 7,
                         g_physical_index = 255\<rparr>"
  by (simp add: sample_filled_def)

lemma sample_init_physical: "init_physical (Block zero_fill) 256 256 = Inr (sample_filled 0)"
  by (simp add: init_physical_def zero_block sample_filled_def)

lemma sample_insert_257:
  "physical_insert (sample_filled 256) (replicate 256 9) 256 =
     Inr \<lparr>FRAME_SIZE = 256, FRAME_N = 256, g_physical = replicate 256 9 @ replicate 65280 7,
          g_physical_index = 0\<rparr>"
  by (simp add: sample_filled_256 physical_insert_def memcpy_def Let_def)

lemma index_of_nat_mod: "(word_of_nat (k mod 256) :: uint8_t) = word_of_nat k"
  by (simp add: word_of_nat_eq_iff take_bit_eq_mod)

lemma index_before: "(- 1 + word_of_nat k :: uint8_t) = word_of_nat (k + 255)"
  by simp

lemma physical_inserts_append:
  "physical_inserts p (xs @ ys) =
     (case physical_inserts p xs of Inl e \<Rightarrow> Inl e | Inr q \<Rightarrow> physical_inserts q ys)"
  by (induction xs arbitrary: p) (auto split: sum.splits)

lemma sample_filled_257:
  "physical_inserts (sample_filled 0) (replicate 256 (replicate 256 7, 256) @ [(replicate 256 9, 256)])
     = Inr \<lparr>FRAME_SIZE = 256, FRAME_N = 256, g_physical = replicate 256 9 @ replicate 65280 7,
            g_physical_index = 0\<rparr>"
  using sample_filled_run [of 0 256] sample_insert_257
  by (simp add: physical_inserts_append)

text \<open>
  Claim C10. The allocation index \<open>g_physical_index\<close> is an 8-bit unsigned counter that
  starts at \<^verbatim>\<open>-1\<close>, that is 255, and is incremented before each copy, so every frame base
  is computed from the number of the allocation modulo 256. After \<open>k\<close> allocations the index
  is \<open>(k + 255) mod 256\<close> and \<open>physical_index\<close> reports the frame base
  \<open>((k + 255) mod 256) * frame_count\<close>. The next allocation, whatever \<open>k\<close> is, sets the index
  to \<open>k mod 256\<close>, copies its bytes to the byte offset \<open>(k mod 256) * frame_count\<close> and then
  has the frame base \<open>(k mod 256) * frame_count\<close>; it fails only when the bytes do not fit
  into the memory at that offset: there is no check of the capacity. So when \<open>k\<close> is a
  multiple of 256, as for the first allocation and for the 257th, the allocation sets the
  index to 0, reports the frame base 0 and copies its bytes over the bytes at the start
  of physical memory, where the first allocation put its frame.
\<close>

theorem physical_index_wraps_modulo_256:
  assumes init: "init_physical heap entries sz = Inr p0"
    and earlier: "physical_inserts p0 reqs = Inr p"
  shows "g_physical_index p0 = 255
       \<and> unat (g_physical_index p) = (length reqs + 255) mod 256
       \<and> physical_index p = word_of_nat (((length reqs + 255) mod 256) * unat entries)
       \<and> physical_insert p addr n =
           (if unat (entries * word_of_nat (length reqs mod 256)) + unat n \<le> length (g_physical p)
               \<and> unat n \<le> length addr
            then Inr (p\<lparr>g_physical_index := word_of_nat (length reqs mod 256),
                        g_physical :=
                          take (unat (entries * word_of_nat (length reqs mod 256))) (g_physical p)
                          @ take (unat n) addr
                          @ drop (unat (entries * word_of_nat (length reqs mod 256)) + unat n)
                              (g_physical p)\<rparr>)
            else Inl Out_of_bounds)
       \<and> physical_index (p\<lparr>g_physical_index := word_of_nat (length reqs mod 256), g_physical := mem\<rparr>)
           = word_of_nat ((length reqs mod 256) * unat entries)
       \<and> (length reqs mod 256 = 0 \<longrightarrow>
            physical_insert p addr n =
              (if unat n \<le> length (g_physical p) \<and> unat n \<le> length addr
               then Inr (p\<lparr>g_physical_index := 0,
                           g_physical := take (unat n) addr @ drop (unat n) (g_physical p)\<rparr>)
               else Inl Out_of_bounds)
          \<and> physical_index (p\<lparr>g_physical_index := 0,
                           g_physical := take (unat n) addr @ drop (unat n) (g_physical p)\<rparr>) = 0)"
proof -
  let ?k = "length reqs"
  let ?at = "unat (entries * word_of_nat (?k mod 256))"
  have p0: "g_physical_index p0 = 255"
    using init_physical_Inr [OF init] by simp
  have ix: "g_physical_index p = - 1 + word_of_nat ?k"
    and fn: "FRAME_N p = entries"
    using physical_inserts_Inr [OF earlier] init_physical_Inr [OF init] by simp_all
  have cnt: "unat (g_physical_index p) = (?k + 255) mod 256"
    by (simp only: ix index_after)
  have "physical_index p = ucast (entries * ucast (word_of_nat (?k + 255) :: uint8_t) :: size_t)"
    by (simp only: physical_index_def Let_def fn ix index_before)
  also have "\<dots> = word_of_nat (((?k + 255) mod 256) * unat entries)"
    by (simp only: ucast_index frame_base_of_nat)
  finally have now: "physical_index p = word_of_nat (((?k + 255) mod 256) * unat entries)" .
  have nxt: "g_physical_index p + 1 = word_of_nat (?k mod 256)"
    by (simp only: ix next_index index_of_nat_mod)
  have cast: "(ucast (word_of_nat (?k mod 256) :: uint8_t) :: size_t) = word_of_nat (?k mod 256)"
    by (simp only: ucast_index mod_mod_trivial)
  have ins: "physical_insert p addr n =
           (if ?at + unat n \<le> length (g_physical p) \<and> unat n \<le> length addr
            then Inr (p\<lparr>g_physical_index := word_of_nat (?k mod 256),
                        g_physical := take ?at (g_physical p) @ take (unat n) addr
                          @ drop (?at + unat n) (g_physical p)\<rparr>)
            else Inl Out_of_bounds)"
    by (simp add: physical_insert_def memcpy_def Let_def nxt fn cast)
  have "physical_index (p\<lparr>g_physical_index := word_of_nat (?k mod 256), g_physical := mem\<rparr>)
          = ucast (entries * ucast (word_of_nat (?k mod 256) :: uint8_t) :: size_t)"
    by (simp add: physical_index_def Let_def fn)
  also have "\<dots> = word_of_nat ((?k mod 256) * unat entries)"
    by (simp only: cast frame_base_of_nat)
  finally have base: "physical_index (p\<lparr>g_physical_index := word_of_nat (?k mod 256), g_physical := mem\<rparr>)
          = word_of_nat ((?k mod 256) * unat entries)" .
  have wrap: "physical_insert p addr n =
              (if unat n \<le> length (g_physical p) \<and> unat n \<le> length addr
               then Inr (p\<lparr>g_physical_index := 0,
                           g_physical := take (unat n) addr @ drop (unat n) (g_physical p)\<rparr>)
               else Inl Out_of_bounds)"
    if "?k mod 256 = 0"
    using ins by (simp add: that)
  show ?thesis
    using p0 cnt now ins base wrap by (simp add: physical_index_def)
qed

theorem physical_index_wraps_witness:
  "init_physical (Block zero_fill) 256 256 = Inr (sample_filled 0)
   \<and> physical_inserts (sample_filled 0) (replicate 256 (replicate 256 7, 256)) = Inr (sample_filled 256)
   \<and> g_physical_index (sample_filled 0) = 255
   \<and> unat (g_physical_index (sample_filled 256)) = 255
   \<and> physical_index (sample_filled 256) = 65280
   \<and> g_physical (sample_filled 256) = replicate 65536 7
   \<and> physical_insert (sample_filled 256) (replicate 256 9) 256 =
       Inr \<lparr>FRAME_SIZE = 256, FRAME_N = 256, g_physical = replicate 256 9 @ replicate 65280 7,
            g_physical_index = 0\<rparr>
   \<and> physical_index \<lparr>FRAME_SIZE = 256, FRAME_N = 256,
                      g_physical = replicate 256 9 @ replicate 65280 7, g_physical_index = 0\<rparr> = 0
   \<and> physical_inserts (sample_filled 0)
         (replicate 256 (replicate 256 7, 256) @ [(replicate 256 9, 256)])
       = Inr \<lparr>FRAME_SIZE = 256, FRAME_N = 256, g_physical = replicate 256 9 @ replicate 65280 7,
              g_physical_index = 0\<rparr>
   \<and> physical_insert \<lparr>FRAME_SIZE = 256, FRAME_N = 256,
                       g_physical = replicate 256 9 @ replicate 65280 7, g_physical_index = 0\<rparr>
         (replicate 256 42) 256
       = Inr \<lparr>FRAME_SIZE = 256, FRAME_N = 256,
              g_physical = replicate 256 9 @ replicate 256 42 @ replicate 65024 7,
              g_physical_index = 1\<rparr>
   \<and> physical_index \<lparr>FRAME_SIZE = 256, FRAME_N = 256,
                      g_physical = replicate 256 9 @ replicate 256 42 @ replicate 65024 7,
                      g_physical_index = 1\<rparr> = 256"
proof -
  let ?w = "\<lparr>FRAME_SIZE = 256, FRAME_N = 256, g_physical = replicate 256 9 @ replicate 65280 7,
            g_physical_index = 0 :: uint8_t\<rparr>"
  have run: "physical_inserts (sample_filled 0) (replicate 256 (replicate 256 7, 256)) = Inr (sample_filled 256)"
    using sample_filled_run [of 0 256] by simp
  have mem: "g_physical (sample_filled 256) = replicate 65536 7"
    by (simp add: sample_filled_256)
  have a: "g_physical_index (sample_filled 0) = 255
       \<and> unat (g_physical_index (sample_filled 256)) = 255
       \<and> physical_index (sample_filled 256) = 65280
       \<and> physical_insert (sample_filled 256) (replicate 256 9) 256 = Inr ?w
       \<and> physical_index ?w = 0"
    using physical_index_wraps_modulo_256 [OF sample_init_physical run, of "replicate 256 9" 256
            "replicate 256 9 @ replicate 65280 7"]
    by (simp add: mem sample_filled_256)
  have b: "physical_insert ?w (replicate 256 42) 256
       = Inr \<lparr>FRAME_SIZE = 256, FRAME_N = 256,
              g_physical = replicate 256 9 @ replicate 256 42 @ replicate 65024 7,
              g_physical_index = 1\<rparr>
     \<and> physical_index \<lparr>FRAME_SIZE = 256, FRAME_N = 256,
                      g_physical = replicate 256 9 @ replicate 256 42 @ replicate 65024 7,
                      g_physical_index = 1\<rparr> = 256"
    using physical_index_wraps_modulo_256 [OF sample_init_physical sample_filled_257,
            of "replicate 256 42" 256 "replicate 256 9 @ replicate 256 42 @ replicate 65024 7"]
    by simp
  from a b sample_init_physical run mem sample_filled_257 show ?thesis
    by simp
qed

section \<open>Backing store\<close>

text \<open>
  A read that returns hands back exactly \<open>n\<close> bytes, the ones from the position \<open>fseek\<close>
  left; a file too short for that ends the process.
\<close>

lemma backingstore_get_Inr:
  assumes "backingstore_get heap g off n = Inr (got, g')"
  shows "length got = unat n" and "0 < unat n"
    and "got = take (unat n) (drop (pos (fseek g (ucast off * n))) (contents g))"
    and "pos (fseek g (ucast off * n)) + unat n \<le> length (contents g)"
    and "g' = (fseek g (ucast off * n))\<lparr>pos := pos (fseek g (ucast off * n)) + unat n\<rparr>"
proof -
  let ?g1 = "fseek g (ucast off * n)"
  let ?read = "take (unat n) (drop (pos ?g1) (contents ?g1))"
  from assms obtain buf where buf: "malloc heap (unat n) = Some buf"
    by (auto simp: backingstore_get_def split: option.splits)
  have same: "contents ?g1 = contents g"
    by (simp add: fseek_def)
  from assms buf have pos: "0 < unat n"
    by (auto simp: backingstore_get_def fread_def Let_def split: if_splits)
  from assms buf pos have one: "length ?read div unat n = 1"
    by (auto simp: backingstore_get_def fread_def Let_def split: if_splits)
  have le: "length ?read \<le> unat n" by simp
  have full: "length ?read = unat n"
  proof (rule ccontr)
    assume "length ?read \<noteq> unat n"
    with le have "length ?read < unat n" by simp
    then have "length ?read div unat n = 0" by simp
    with one show False by simp
  qed
  have buflen: "length buf = unat n"
    using buf by (rule malloc_Some_length)
  from assms buf pos have res: "got = ?read @ drop (length ?read) buf"
    and g': "g' = ?g1\<lparr>pos := pos ?g1 + length ?read\<rparr>"
    by (auto simp: backingstore_get_def fread_def Let_def split: if_splits)
  from res full buflen have got: "got = ?read" by simp
  show "0 < unat n" by (rule pos)
  show "length got = unat n" using got full by simp
  show "got = take (unat n) (drop (pos ?g1) (contents g))" using got same by simp
  show "g' = ?g1\<lparr>pos := pos ?g1 + unat n\<rparr>" using g' full by simp
  show "pos ?g1 + unat n \<le> length (contents g)"
  proof (rule ccontr)
    assume "\<not> pos ?g1 + unat n \<le> length (contents g)"
    then have "length (drop (pos ?g1) (contents ?g1)) < unat n"
      using pos by (simp add: same)
    then have "length ?read < unat n" by simp
    with full show False by simp
  qed
qed

lemma backingstore_get_short:
  assumes "length (contents g) < pos (fseek g (ucast off * n)) + unat n"
  shows "backingstore_get heap g off n = Inl Exit_failure"
proof (cases "backingstore_get heap g off n")
  case (Inl e)
  then show ?thesis
    by (auto simp: backingstore_get_def Let_def split: option.splits if_splits)
next
  case (Inr r)
  then have "backingstore_get heap g off n = Inr (fst r, snd r)" by simp
  from backingstore_get_Inr(4) [OF this] assms show ?thesis by simp
qed

section \<open>Address translation\<close>

text \<open>The three paths of \<open>mmu_findframe\<close>, and what every returning call leaves behind.\<close>

lemma mmu_findframe_hit:
  assumes "tlb_search (tlb s) (page (page_offset addr)) = Inr TLB_HIT"
  shows "mmu_findframe heap s addr =
    Inr (s\<lparr>g_tlbhit := g_tlbhit s + 1\<rparr>,
         tlb_frame (g_tlb (tlb s) ! unat (ucast (page (page_offset addr)) mod TLB_SIZE (tlb s))))"
  using assms tlb_search_hit_get [OF assms]
  by (simp add: mmu_findframe_def Let_def)

lemma mmu_findframe_found:
  assumes "tlb_search (tlb s) (page (page_offset addr)) = Inr TLB_MISS"
    and "pmt_search (pmt s) (page (page_offset addr)) = Inr PAGE_SUCCESS"
  shows "\<exists>tb. tlb_insert (tlb s) (page (page_offset addr)) (g_pmt (pmt s) ! unat (page (page_offset addr))) = Inr tb
     \<and> mmu_findframe heap s addr =
        Inr (s\<lparr>tlb := tb\<rparr>, g_pmt (pmt s) ! unat (page (page_offset addr)))"
  using assms pmt_search_success_get [OF assms(2)] tlb_search_insert [OF assms(1)]
  by (simp add: mmu_findframe_def Let_def)

lemma mmu_findframe_fault:
  assumes "tlb_search (tlb s) (page (page_offset addr)) = Inr TLB_MISS"
    and "pmt_search (pmt s) (page (page_offset addr)) = Inr PAGE_FAULT"
    and "mmu_findframe heap s addr = Inr (s', frame)"
  shows "\<exists>got g ph pt tb.
      backingstore_get heap (backing s) (page (page_offset addr)) (pmt_page_n (pmt s)) = Inr (got, g)
    \<and> physical_insert (physical s) got (pmt_page_n (pmt s)) = Inr ph
    \<and> frame = physical_index ph
    \<and> pmt_insert (pmt s) (page (page_offset addr)) frame = Inr pt
    \<and> tlb_insert (tlb s) (page (page_offset addr)) frame = Inr tb
    \<and> s' = s\<lparr>g_pagefault := g_pagefault s + 1, backing := g, physical := ph, pmt := pt, tlb := tb\<rparr>"
  using assms
  by (auto simp: mmu_findframe_def Let_def split: sum.splits)

lemma mmu_findframe_cached:
  assumes "mmu_findframe heap s addr = Inr (s', frame)"
  shows "tlb_search (tlb s') (page (page_offset addr)) = Inr TLB_HIT
       \<and> tlb_get (tlb s') (page (page_offset addr)) = Inr frame
       \<and> mmu_initialized s' = mmu_initialized s
       \<and> g_translated s' = g_translated s"
  using assms
  by (auto simp: mmu_findframe_def Let_def tlb_insert_hit
           split: sum.splits TLB_RESULT.splits PAGE_RESULT.splits)

lemma mmu_getphysical_Inr:
  "mmu_getphysical heap s logical = Inr (s', pa) \<longleftrightarrow>
     mmu_initialized s \<and>
     (\<exists>frame. mmu_findframe heap (s\<lparr>g_translated := g_translated s + 1\<rparr>) logical = Inr (s', frame)
        \<and> pa = frame + ucast (offset (page_offset logical)))"
  by (auto simp: mmu_getphysical_def Let_def split: sum.splits)

text \<open>The sample run: initialisation, then page 1, then page 17.\<close>

lemma sample_boot_init:
  "init_mmu (Some sample_store) (Block zero_fill) (Block zero_fill) (Block tlb_zero_fill)
      256 256 256 256 16 = Inr sample_boot"
  by (simp add: init_mmu_def init_physical_Block init_backingstore_def init_pmt_Block
        init_tlb_Block zero_fill_upt sample_boot_def del: upt_rec_numeral)

lemma page_offset_0100: "page_offset 0x0100 = \<lparr>page = 1, offset = 0\<rparr>"
  by (simp add: page_offset_def)

lemma page_offset_1100: "page_offset 0x1100 = \<lparr>page = 17, offset = 0\<rparr>"
  by (simp add: page_offset_def)

lemma page_offset_FF00: "page_offset 0xFF00 = \<lparr>page = 255, offset = 0\<rparr>"
  by (simp add: page_offset_def)

lemmas run_defs = mmu_getphysical_def mmu_findframe_def tlb_search_def tlb_get_def
        hashCode_def pmt_search_def pmt_get_def pmt_page_n_def backingstore_get_def zero_block fseek_def fread_def
        physical_insert_def memcpy_def physical_index_def pmt_insert_def tlb_insert_def Let_def

lemma sample_run_1:
  "mmu_getphysical (Block zero_fill) sample_boot 0x0100 = Inr (sample_after_1, 0)"
  by (simp add: run_defs page_offset_0100 sample_boot_def sample_after_1_def sample_store_def)

lemma sample_run_17:
  "mmu_getphysical (Block zero_fill) sample_after_1 0x1100 = Inr (sample_after_17, 256)"
  by (simp add: run_defs page_offset_1100 sample_after_1_def sample_after_17_def sample_store_def)

text \<open>
  Claim C9. Translating the same logical address twice in a row yields the same physical
  address both times, and the second call is a hit of the lookaside buffer: it adds one to
  the hit counter (and one to the number of translations, and nothing else changes).
  This holds in every state in which the first call returns, whichever path it took, and
  the second call needs no memory from the heap.
\<close>

theorem translate_twice_same_address_and_hit:
  assumes "mmu_getphysical heap s logical = Inr (s1, pa)"
  shows "mmu_getphysical heap' s1 logical =
           Inr (s1\<lparr>g_translated := g_translated s1 + 1, g_tlbhit := g_tlbhit s1 + 1\<rparr>, pa)"
proof -
  from assms obtain frame where init: "mmu_initialized s"
    and ff: "mmu_findframe heap (s\<lparr>g_translated := g_translated s + 1\<rparr>) logical = Inr (s1, frame)"
    and pa: "pa = frame + ucast (offset (page_offset logical))"
    by (auto simp: mmu_getphysical_Inr)
  from mmu_findframe_cached [OF ff]
  have hit: "tlb_search (tlb s1) (page (page_offset logical)) = Inr TLB_HIT"
    and get: "tlb_get (tlb s1) (page (page_offset logical)) = Inr frame"
    and init1: "mmu_initialized s1"
    using init by simp_all
  let ?s = "s1\<lparr>g_translated := g_translated s1 + 1\<rparr>"
  have "mmu_findframe heap' ?s logical = Inr (?s\<lparr>g_tlbhit := g_tlbhit ?s + 1\<rparr>, frame)"
    using hit get by (simp add: mmu_findframe_def Let_def)
  then show ?thesis
    using init1 pa by (simp add: mmu_getphysical_def Let_def)
qed

theorem translate_twice_witness:
  "mmu_getphysical (Block zero_fill) sample_boot 0x0100 = Inr (sample_after_1, 0)
   \<and> mmu_getphysical Null sample_after_1 0x0100 =
       Inr (sample_after_1\<lparr>g_translated := 2, g_tlbhit := 1\<rparr>, 0)"
proof -
  have counters: "g_translated sample_after_1 + 1 = 2" "g_tlbhit sample_after_1 + 1 = 1"
    by (simp_all add: sample_after_1_def)
  from translate_twice_same_address_and_hit [OF sample_run_1, of Null] sample_run_1
  show ?thesis
    by (simp only: counters)
qed

text \<open>
  Claim C1. The first translation of a page that was never translated since
  initialisation counts exactly one page fault and is neither a hit of the lookaside
  buffer nor of the page table.

  The code does not do that for page 255. Under the configuration of \<^verbatim>\<open>main.c\<close>, right
  after \<open>init_mmu\<close>, the page table has page 255 unmapped, but every buffer slot holds the
  page value 255 left by \<open>init_tlb\<close>. The first translation of \<^verbatim>\<open>0xFF00\<close> is therefore
  answered by the buffer: the hit counter goes from 0 to 1, the fault counter stays 0, and
  the physical address is built from the buffer's initial frame \<^verbatim>\<open>0xFFFFFFFF\<close>.
\<close>

theorem first_touch_of_page_255_hits_buffer:
  "init_mmu (Some sample_store) (Block zero_fill) (Block zero_fill) (Block tlb_zero_fill)
      256 256 256 256 16 = Inr sample_boot
   \<and> g_pagefault sample_boot = 0 \<and> g_tlbhit sample_boot = 0 \<and> g_translated sample_boot = 0
   \<and> pmt_search (pmt sample_boot) 255 = Inr PAGE_FAULT
   \<and> tlb_search (tlb sample_boot) 255 = Inr TLB_HIT
   \<and> mmu_getphysical heap sample_boot 0xFF00 =
       Inr (sample_boot\<lparr>g_tlbhit := 1, g_translated := 1\<rparr>, 0xFFFFFFFF)"
proof -
  have counters: "g_pagefault sample_boot = 0" "g_tlbhit sample_boot = 0" "g_translated sample_boot = 0"
    by (simp_all add: sample_boot_def)
  have table: "pmt_search (pmt sample_boot) 255 = Inr PAGE_FAULT"
    by (simp add: pmt_search_def sample_boot_def)
  have buffer: "tlb_search (tlb sample_boot) 255 = Inr TLB_HIT"
    by (simp add: tlb_search_def hashCode_def sample_boot_def)
  have run: "mmu_getphysical heap sample_boot 0xFF00 =
       Inr (sample_boot\<lparr>g_tlbhit := 1, g_translated := 1\<rparr>, 0xFFFFFFFF)"
    by (simp add: mmu_getphysical_def mmu_findframe_def page_offset_FF00 tlb_search_def
          tlb_get_def hashCode_def sample_boot_def)
  from sample_boot_init counters table buffer run show ?thesis
    by simp
qed

text \<open>
  Claim C5. On a page fault for page \<open>p\<close> the engine reads \<open>page_size\<close> bytes of the backing
  store from the byte offset \<open>p * page_size\<close>, and a short read ends the process.

  The code reads \<open>PAGE_N\<close> bytes from the offset \<open>p * PAGE_N\<close> instead: \<open>mmu_findframe\<close> passes
  the number of page-table entries, \<open>pmt_page_n ()\<close>, as the length. With 256 entries and a
  page size of 16, the fault on page 1 reads the 256 bytes at the offsets 256..511 (the
  42s of the sample store) into physical memory and leaves the stream at 512; the 16 bytes
  at the offsets 16..31, which are page 1 for a page size of 16, are 7s.
\<close>

theorem fault_reads_page_count_bytes:
  "\<exists>s0 s1.
      init_mmu (Some sample_store) (Block zero_fill) (Block zero_fill) (Block tlb_zero_fill)
        256 16 256 256 16 = Inr s0
    \<and> PAGE_N (pmt s0) = 256 \<and> PAGE_SIZE (pmt s0) = 16
    \<and> mmu_getphysical (Block zero_fill) s0 0x0100 = Inr (s1, 0)
    \<and> g_pagefault s1 = 1
    \<and> pos (backing s1) = 256 + 256
    \<and> take 256 (g_physical (physical s1)) = replicate 256 42
    \<and> take 256 (drop 256 sample_store) = replicate 256 42
    \<and> take 16 (drop 16 sample_store) = replicate 16 7"
proof -
  let ?s0 = "sample_boot\<lparr>pmt := \<lparr>PAGE_SIZE = 16, PAGE_N = 256,
                                  g_pmt = replicate 16 (- 1) @ replicate 240 0\<rparr>\<rparr>"
  let ?s1 = "sample_after_1\<lparr>pmt := \<lparr>PAGE_SIZE = 16, PAGE_N = 256,
                                  g_pmt = (replicate 16 (- 1) @ replicate 240 0)[1 := 0]\<rparr>\<rparr>"
  have init: "init_mmu (Some sample_store) (Block zero_fill) (Block zero_fill) (Block tlb_zero_fill)
        256 16 256 256 16 = Inr ?s0"
    by (simp add: init_mmu_def init_physical_Block init_backingstore_def init_pmt_Block
        init_tlb_Block zero_fill_upt sample_boot_def del: upt_rec_numeral)
  have run: "mmu_getphysical (Block zero_fill) ?s0 0x0100 = Inr (?s1, 0)"
    by (simp add: run_defs page_offset_0100 sample_boot_def sample_after_1_def sample_store_def
          nth_append)
  have facts: "PAGE_N (pmt ?s0) = 256" "PAGE_SIZE (pmt ?s0) = 16" "g_pagefault ?s1 = 1"
    "pos (backing ?s1) = 256 + 256" "take 256 (g_physical (physical ?s1)) = replicate 256 42"
    "take 256 (drop 256 sample_store) = replicate 256 42"
    "take 16 (drop 16 sample_store) = replicate 16 7"
    by (simp_all add: sample_after_1_def sample_store_def)
  from init run facts show ?thesis
    by blast
qed

section \<open>Further properties of the engine\<close>

lemma init_mmu_Inr:
  assumes "init_mmu store h1 h2 h3 page_n page_size frame_n frame_size tlb_size = Inr s"
  shows "mmu_initialized s" and "g_pagefault s = 0" and "g_tlbhit s = 0" and "g_translated s = 0"
    and "init_physical h1 frame_n frame_size = Inr (physical s)"
    and "init_backingstore store = Inr (backing s)"
    and "init_pmt h2 page_n page_size = Inr (pmt s)"
    and "init_tlb h3 tlb_size = Inr (tlb s)"
  using assms by (auto simp: init_mmu_def split: sum.splits)

lemma translation_counters:
  assumes "mmu_getphysical heap s logical = Inr (s', pa)"
  shows "g_translated s' = g_translated s + 1
       \<and> g_pagefault s \<le> g_pagefault s' \<and> g_tlbhit s \<le> g_tlbhit s'
       \<and> g_pagefault s' + g_tlbhit s' \<le> g_pagefault s + g_tlbhit s + 1"
  using assms
  by (auto simp: mmu_getphysical_def mmu_findframe_def Let_def
           split: if_splits sum.splits TLB_RESULT.splits PAGE_RESULT.splits)

lemma run_counters:
  "mmu_getphysicals s0 reqs = Inr s \<Longrightarrow>
     g_translated s = g_translated s0 + int (length reqs)
   \<and> g_pagefault s0 \<le> g_pagefault s \<and> g_tlbhit s0 \<le> g_tlbhit s
   \<and> g_pagefault s + g_tlbhit s \<le> g_pagefault s0 + g_tlbhit s0 + int (length reqs)"
proof (induction reqs arbitrary: s0)
  case Nil
  then show ?case by simp
next
  case (Cons req reqs)
  from Cons.prems obtain s1 pa where
        one: "mmu_getphysical (fst req) s0 (snd req) = Inr (s1, pa)"
    and rest: "mmu_getphysicals s1 reqs = Inr s"
    by (auto split: sum.splits)
  from translation_counters [OF one] Cons.IH [OF rest] show ?case
    by simp
qed

text \<open>
  The statistics counters. Every translation that returns adds one to \<open>g_translated\<close> and at
  most one to the sum of the two other counters, neither of which decreases. So after a
  run of \<open>N\<close> translations from initialisation, \<open>g_translated\<close> is \<open>N\<close> and the fault and hit
  counters lie between 0 and \<open>N\<close>, as does their sum.
\<close>

theorem statistics_bound:
  assumes "init_mmu store h1 h2 h3 page_n page_size frame_n frame_size tlb_size = Inr s0"
    and "mmu_getphysicals s0 reqs = Inr s"
  shows "g_translated s = int (length reqs)
       \<and> 0 \<le> g_pagefault s \<and> g_pagefault s \<le> int (length reqs)
       \<and> 0 \<le> g_tlbhit s \<and> g_tlbhit s \<le> int (length reqs)
       \<and> g_pagefault s + g_tlbhit s \<le> int (length reqs)"
  using run_counters [OF assms(2)] init_mmu_Inr(2-4) [OF assms(1)] by simp

theorem statistics_bound_witness:
  "mmu_getphysicals sample_boot [(Block zero_fill, 0x0100), (Block zero_fill, 0x1100)]
     = Inr sample_after_17
   \<and> g_translated sample_after_17 = 2 \<and> g_pagefault sample_after_17 = 2
   \<and> g_tlbhit sample_after_17 = 0"
proof -
  have run: "mmu_getphysicals sample_boot [(Block zero_fill, 0x0100), (Block zero_fill, 0x1100)]
     = Inr sample_after_17"
    by (simp add: sample_run_1 sample_run_17)
  from statistics_bound [OF sample_boot_init run] run show ?thesis
    by (simp add: sample_after_17_def)
qed

text \<open>
  The page table never loses a mapping: a page that it maps before a translation is mapped
  to the same frame after it.
\<close>

theorem page_table_keeps_mappings:
  assumes "mmu_getphysical heap s logical = Inr (s', pa)"
    and "pmt_search (pmt s) p = Inr PAGE_SUCCESS"
  shows "pmt_search (pmt s') p = Inr PAGE_SUCCESS \<and> pmt_get (pmt s') p = pmt_get (pmt s) p"
proof (cases "p = page (page_offset logical)")
  case True
  with assms show ?thesis
    by (auto simp: mmu_getphysical_def mmu_findframe_def Let_def
             split: if_splits sum.splits TLB_RESULT.splits PAGE_RESULT.splits)
next
  case False
  with assms show ?thesis
    by (auto simp: mmu_getphysical_def mmu_findframe_def Let_def dest: pmt_insert_other
             split: if_splits sum.splits TLB_RESULT.splits PAGE_RESULT.splits)
qed

theorem page_table_keeps_mappings_witness:
  "pmt_search (pmt sample_after_1) 1 = Inr PAGE_SUCCESS
   \<and> pmt_search (pmt sample_after_17) 1 = Inr PAGE_SUCCESS
   \<and> pmt_get (pmt sample_after_17) 1 = Inr 0"
proof -
  have mapped: "pmt_search (pmt sample_after_1) 1 = Inr PAGE_SUCCESS"
    by (simp add: pmt_search_def sample_after_1_def)
  have entry: "pmt_get (pmt sample_after_1) 1 = Inr 0"
    by (simp add: pmt_get_def sample_after_1_def)
  from page_table_keeps_mappings [OF sample_run_17 mapped] mapped show ?thesis
    by (simp add: entry)
qed

text \<open>
  The scenario of page 1: with a backing store whose page 1 holds the byte 42, the first
  translation of \<^verbatim>\<open>0x0100\<close> is a page fault, and the value at the physical address it
  returns is 42.
\<close>

theorem page_1_scenario:
  "mmu_getphysical (Block zero_fill) sample_boot 0x0100 = Inr (sample_after_1, 0)
   \<and> g_pagefault sample_after_1 = g_pagefault sample_boot + 1
   \<and> mmu_getvalue sample_after_1 0 = Inr 42
   \<and> sint (42 :: uint8_t) = 42"
proof -
  have faults: "g_pagefault sample_after_1 = g_pagefault sample_boot + 1"
    by (simp add: sample_after_1_def sample_boot_def)
  have val: "mmu_getvalue sample_after_1 0 = Inr 42"
    by (simp add: mmu_getvalue_def physical_value_def sample_after_1_def nth_append)
  from sample_run_1 faults val show ?thesis
    by simp
qed

subsection \<open>First touch\<close>

text \<open>
  Through a run of translations every buffer slot holds either the initial page value 255
  or a page the run has translated, and the page-table entry of every page the run has not
  translated is unmapped, provided it was unmapped at the start.
\<close>

lemma init_tlb_Inr:
  assumes "init_tlb heap sz = Inr t"
  shows "TLB_SIZE t = sz" and "g_tlb t = replicate (unat sz) \<lparr>tlb_page = - 1, tlb_frame = - 1\<rparr>"
proof -
  from assms obtain c where "heap = Block c"
    by (cases heap) (auto simp: init_tlb_def malloc_def)
  with assms show "TLB_SIZE t = sz"
    and "g_tlb t = replicate (unat sz) \<lparr>tlb_page = - 1, tlb_frame = - 1\<rparr>"
    by (auto simp: init_tlb_Block split: if_splits)
qed

lemma init_pmt_Inr:
  assumes "init_pmt heap entries sz = Inr t"
  shows "PAGE_N t = entries" and "PAGE_SIZE t = sz" and "unat sz \<le> length (g_pmt t)"
    and "i < unat sz \<Longrightarrow> g_pmt t ! i = - 1"
proof -
  from assms obtain c where "heap = Block c"
    by (cases heap) (auto simp: init_pmt_def malloc_def)
  with assms have ok: "unat sz \<le> unat (entries * 4) div 4"
    and t: "t = \<lparr>PAGE_SIZE = sz, PAGE_N = entries,
                g_pmt = replicate (unat sz) (- 1) @ map c [unat sz..<unat (entries * 4) div 4]\<rparr>"
    by (auto simp: init_pmt_Block split: if_splits)
  show "PAGE_N t = entries" and "PAGE_SIZE t = sz"
    by (simp_all add: t)
  show "unat sz \<le> length (g_pmt t)"
    using ok by (simp add: t)
  show "g_pmt t ! i = - 1" if "i < unat sz"
    using that by (simp add: t nth_append)
qed

lemma mmu_findframe_writes:
  assumes "mmu_findframe heap s addr = Inr (s', frame)"
  shows "(tlb s' = tlb s \<or> (\<exists>f. tlb_insert (tlb s) (page (page_offset addr)) f = Inr (tlb s')))
       \<and> (pmt s' = pmt s \<or> (\<exists>f. pmt_insert (pmt s) (page (page_offset addr)) f = Inr (pmt s')))"
  using assms
  by (auto simp: mmu_findframe_def Let_def
           split: sum.splits TLB_RESULT.splits PAGE_RESULT.splits)

lemma tlb_insert_pages:
  assumes "tlb_insert t pg f = Inr t'" and "e \<in> set (g_tlb t')"
  shows "tlb_page e = pg \<or> e \<in> set (g_tlb t)"
proof -
  from assms(1) obtain h where
    "g_tlb t' = (g_tlb t)[h := (g_tlb t ! h)\<lparr>tlb_page := pg, tlb_frame := f\<rparr>]"
    by (auto simp: tlb_insert_def split: sum.splits if_splits)
  with assms(2) have "e \<in> insert ((g_tlb t ! h)\<lparr>tlb_page := pg, tlb_frame := f\<rparr>) (set (g_tlb t))"
    using set_update_subset_insert by fastforce
  then show ?thesis by auto
qed

lemma pmt_insert_cells:
  assumes "pmt_insert t pg f = Inr t'"
  shows "length (g_pmt t') = length (g_pmt t)"
    and "p \<noteq> pg \<Longrightarrow> g_pmt t' ! unat p = g_pmt t ! unat p"
proof -
  from assms have t': "g_pmt t' = (g_pmt t)[unat pg := f]"
    by (auto simp: pmt_insert_def split: if_splits)
  show "length (g_pmt t') = length (g_pmt t)"
    by (simp add: t')
  show "g_pmt t' ! unat p = g_pmt t ! unat p" if "p \<noteq> pg"
  proof -
    from that have "unat pg \<noteq> unat p"
      by (simp add: word_unat_eq_iff)
    then show ?thesis by (simp add: t')
  qed
qed

lemma untouched_step:
  assumes step: "mmu_getphysical heap s logical = Inr (s', pa)"
    and buffer: "\<forall>e \<in> set (g_tlb (tlb s)). tlb_page e \<in> insert 255 T"
    and table: "\<forall>p. p \<notin> T \<longrightarrow> unat p < length (g_pmt (pmt s)) \<and> g_pmt (pmt s) ! unat p = - 1"
  shows "(\<forall>e \<in> set (g_tlb (tlb s')). tlb_page e \<in> insert 255 (insert (page (page_offset logical)) T))
       \<and> (\<forall>p. p \<notin> insert (page (page_offset logical)) T \<longrightarrow>
              unat p < length (g_pmt (pmt s')) \<and> g_pmt (pmt s') ! unat p = - 1)"
proof -
  let ?pg = "page (page_offset logical)"
  let ?s = "s\<lparr>g_translated := g_translated s + 1\<rparr>"
  from step obtain frame where ff: "mmu_findframe heap ?s logical = Inr (s', frame)"
    by (auto simp: mmu_getphysical_Inr)
  from mmu_findframe_writes [OF ff]
  have tw: "tlb s' = tlb s \<or> (\<exists>f. tlb_insert (tlb s) ?pg f = Inr (tlb s'))"
    and pw: "pmt s' = pmt s \<or> (\<exists>f. pmt_insert (pmt s) ?pg f = Inr (pmt s'))"
    by simp_all
  have a: "tlb_page e \<in> insert 255 (insert ?pg T)" if "e \<in> set (g_tlb (tlb s'))" for e
    using tw that buffer tlb_insert_pages by fastforce
  have b: "unat p < length (g_pmt (pmt s')) \<and> g_pmt (pmt s') ! unat p = - 1"
    if "p \<notin> insert ?pg T" for p
  proof -
    from that have ne: "p \<noteq> ?pg" and out: "p \<notin> T" by simp_all
    from pw show ?thesis
    proof
      assume "pmt s' = pmt s"
      with table out show ?thesis by simp
    next
      assume "\<exists>f. pmt_insert (pmt s) ?pg f = Inr (pmt s')"
      then obtain f where "pmt_insert (pmt s) ?pg f = Inr (pmt s')" ..
      from pmt_insert_cells [OF this] ne table out show ?thesis by simp
    qed
  qed
  from a b show ?thesis by blast
qed

lemma untouched_run:
  assumes "mmu_getphysicals s0 reqs = Inr s"
    and "\<forall>e \<in> set (g_tlb (tlb s0)). tlb_page e \<in> insert 255 T"
    and "\<forall>p. p \<notin> T \<longrightarrow> unat p < length (g_pmt (pmt s0)) \<and> g_pmt (pmt s0) ! unat p = - 1"
  shows "(\<forall>e \<in> set (g_tlb (tlb s)).
            tlb_page e \<in> insert 255 (T \<union> (\<lambda>r. page (page_offset (snd r))) ` set reqs))
       \<and> (\<forall>p. p \<notin> T \<union> (\<lambda>r. page (page_offset (snd r))) ` set reqs \<longrightarrow>
              unat p < length (g_pmt (pmt s)) \<and> g_pmt (pmt s) ! unat p = - 1)"
  using assms
proof (induction reqs arbitrary: s0 T)
  case Nil
  then show ?case by simp
next
  case (Cons req reqs)
  from Cons.prems(1) obtain s1 pa where
        one: "mmu_getphysical (fst req) s0 (snd req) = Inr (s1, pa)"
    and rest: "mmu_getphysicals s1 reqs = Inr s"
    by (auto split: sum.splits)
  let ?T = "insert (page (page_offset (snd req))) T"
  from untouched_step [OF one Cons.prems(2,3)]
  have b: "\<forall>e \<in> set (g_tlb (tlb s1)). tlb_page e \<in> insert 255 ?T"
    and t: "\<forall>p. p \<notin> ?T \<longrightarrow> unat p < length (g_pmt (pmt s1)) \<and> g_pmt (pmt s1) ! unat p = - 1"
    by simp_all
  have eq: "?T \<union> (\<lambda>r. page (page_offset (snd r))) ` set reqs
          = T \<union> (\<lambda>r. page (page_offset (snd r))) ` set (req # reqs)"
    by auto
  from Cons.IH [OF rest b t] show ?case
    by (simp only: eq)
qed

text \<open>
  First touch, for the pages other than 255. After initialisation with a loop that covered
  all 256 page-table entries (\<open>page_size\<close> at least 256) and any run of translations, the
  first translation of a page other than 255 misses the buffer, finds the page unmapped
  and, when it returns, has counted one page fault and no hit.
\<close>

theorem first_touch_faults_except_page_255:
  assumes init: "init_mmu store h1 h2 h3 page_n page_size frame_n frame_size tlb_size = Inr s0"
    and all_pages: "256 \<le> unat page_size"
    and run: "mmu_getphysicals s0 reqs = Inr s"
    and untouched: "page (page_offset logical) \<notin> (\<lambda>r. page (page_offset (snd r))) ` set reqs"
    and not_255: "page (page_offset logical) \<noteq> 255"
    and ret: "mmu_getphysical heap s logical = Inr (s', pa)"
  shows "tlb_search (tlb s) (page (page_offset logical)) = Inr TLB_MISS
       \<and> pmt_search (pmt s) (page (page_offset logical)) = Inr PAGE_FAULT
       \<and> g_pagefault s' = g_pagefault s + 1
       \<and> g_tlbhit s' = g_tlbhit s"
proof -
  let ?pg = "page (page_offset logical)"
  have b0: "\<forall>e \<in> set (g_tlb (tlb s0)). tlb_page e \<in> insert 255 {}"
    using init_tlb_Inr(2) [OF init_mmu_Inr(8) [OF init]] by simp
  have small: "unat p < 256" for p :: uint8_t
    using unsigned_less [of p] by simp
  have cell: "unat p < length (g_pmt (pmt s0)) \<and> g_pmt (pmt s0) ! unat p = - 1" for p :: uint8_t
  proof -
    have "unat p < unat page_size"
      using small [of p] all_pages by simp
    with init_pmt_Inr(3,4) [OF init_mmu_Inr(7) [OF init]] show ?thesis
      by simp
  qed
  then have t0: "\<forall>p :: uint8_t. p \<notin> {} \<longrightarrow> unat p < length (g_pmt (pmt s0)) \<and> g_pmt (pmt s0) ! unat p = - 1"
    by simp
  from untouched_run [OF run b0 t0]
  have buffer: "\<forall>e \<in> set (g_tlb (tlb s)).
                   tlb_page e \<in> insert 255 ((\<lambda>r. page (page_offset (snd r))) ` set reqs)"
    and table: "\<forall>p. p \<notin> (\<lambda>r. page (page_offset (snd r))) ` set reqs \<longrightarrow>
                   unat p < length (g_pmt (pmt s)) \<and> g_pmt (pmt s) ! unat p = - 1"
    by simp_all
  let ?s = "s\<lparr>g_translated := g_translated s + 1\<rparr>"
  from ret obtain frame where ff: "mmu_findframe heap ?s logical = Inr (s', frame)"
    by (auto simp: mmu_getphysical_Inr)
  from ff obtain r where sr: "tlb_search (tlb s) ?pg = Inr r"
    by (auto simp: mmu_findframe_def Let_def split: sum.splits)
  have miss: "tlb_search (tlb s) ?pg = Inr TLB_MISS"
  proof (cases r)
    case TLB_MISS
    with sr show ?thesis by simp
  next
    case TLB_HIT
    with sr obtain h where h: "h < length (g_tlb (tlb s))" and pg: "tlb_page (g_tlb (tlb s) ! h) = ?pg"
      by (auto simp: tlb_search_def split: sum.splits if_splits)
    from h have "g_tlb (tlb s) ! h \<in> set (g_tlb (tlb s))" by simp
    with buffer have "tlb_page (g_tlb (tlb s) ! h)
        \<in> insert 255 ((\<lambda>r. page (page_offset (snd r))) ` set reqs)"
      by blast
    with pg untouched not_255 have False by simp
    then show ?thesis ..
  qed
  have fault: "pmt_search (pmt s) ?pg = Inr PAGE_FAULT"
    using table untouched by (simp add: pmt_search_def)
  have miss': "tlb_search (tlb ?s) ?pg = Inr TLB_MISS" and fault': "pmt_search (pmt ?s) ?pg = Inr PAGE_FAULT"
    using miss fault by simp_all
  from mmu_findframe_fault [OF miss' fault' ff] miss fault show ?thesis
    by auto
qed

theorem first_touch_witness:
  "tlb_search (tlb sample_after_1) 17 = Inr TLB_MISS
   \<and> pmt_search (pmt sample_after_1) 17 = Inr PAGE_FAULT
   \<and> g_pagefault sample_after_17 = g_pagefault sample_after_1 + 1
   \<and> g_tlbhit sample_after_17 = g_tlbhit sample_after_1"
proof -
  have run: "mmu_getphysicals sample_boot [(Block zero_fill, 0x0100)] = Inr sample_after_1"
    by (simp add: sample_run_1)
  have pg: "page (page_offset 0x1100) = 17" and pg1: "page (page_offset 0x0100) = 1"
    by (simp_all add: page_offset_1100 page_offset_0100)
  have untouched: "page (page_offset 0x1100) \<notin>
      (\<lambda>r. page (page_offset (snd r))) ` set [(Block zero_fill, 0x0100 :: uint32_t)]"
    by (simp add: pg pg1)
  have not_255: "page (page_offset 0x1100) \<noteq> 255"
    by (simp add: pg)
  have all_pages: "256 \<le> unat (256 :: size_t)"
    by simp
  from first_touch_faults_except_page_255
         [OF sample_boot_init all_pages run untouched not_255 sample_run_17]
  show ?thesis
    by (simp add: pg)
qed

subsection \<open>Returning\<close>

lemma backingstore_get_full:
  assumes "n \<noteq> 0" and "0 \<le> sint (ucast pg * n)"
    and "unat (ucast pg * n) + unat n \<le> length (contents g)"
  shows "backingstore_get (Block c) g pg n =
           Inr (take (unat n) (drop (unat (ucast pg * n)) (contents g)),
                g\<lparr>pos := unat (ucast pg * n) + unat n\<rparr>)"
proof -
  have n: "unat n \<noteq> 0"
    using assms(1) by (simp add: unat_eq_0)
  have seek: "fseek g (ucast pg * n) = g\<lparr>pos := unat (ucast pg * n)\<rparr>"
    using assms(2) by (simp add: fseek_def)
  have len: "min (length (contents g) - unat (ucast pg * n)) (unat n) = unat n"
    using assms(3) by simp
  show ?thesis
    using n by (simp add: backingstore_get_def malloc_Block Let_def seek fread_def len)
qed

lemma physical_insert_fits:
  assumes "unat (FRAME_N p * ucast (g_physical_index p + 1)) + unat n \<le> length (g_physical p)"
    and "unat n \<le> length d"
  shows "\<exists>ph. physical_insert p d n = Inr ph"
  using assms by (simp add: physical_insert_def memcpy_def Let_def)

text \<open>
  A translation returns when the state is initialised, the buffer has at least one slot,
  the page table has an entry for each of the 256 pages, and, for the case of a page
  fault, the heap has a staging buffer, the page lies inside the backing store and the
  next frame inside physical memory.
\<close>

theorem translation_returns:
  assumes init: "mmu_initialized s"
    and slots: "TLB_SIZE (tlb s) \<noteq> 0" "unat (TLB_SIZE (tlb s)) \<le> length (g_tlb (tlb s))"
    and entries: "256 \<le> length (g_pmt (pmt s))"
    and bytes: "PAGE_N (pmt s) \<noteq> 0"
    and seek: "0 \<le> sint (ucast (page (page_offset logical)) * PAGE_N (pmt s))"
    and stored: "unat (ucast (page (page_offset logical)) * PAGE_N (pmt s)) + unat (PAGE_N (pmt s))
                   \<le> length (contents (backing s))"
    and room: "unat (FRAME_N (physical s) * ucast (g_physical_index (physical s) + 1))
                 + unat (PAGE_N (pmt s)) \<le> length (g_physical (physical s))"
  shows "\<exists>s' pa. mmu_getphysical (Block c) s logical = Inr (s', pa)"
proof -
  let ?pg = "page (page_offset logical)"
  let ?s = "s\<lparr>g_translated := g_translated s + 1\<rparr>"
  let ?n = "PAGE_N (pmt s)"
  have "0 < unat (TLB_SIZE (tlb s))"
    using slots(1) by (simp add: unat_gt_0)
  then have "unat (ucast ?pg mod TLB_SIZE (tlb s)) < unat (TLB_SIZE (tlb s))"
    by (simp add: unat_mod_distrib)
  with slots(2) have h: "unat (ucast ?pg mod TLB_SIZE (tlb s)) < length (g_tlb (tlb s))"
    by simp
  have "unat p < 256" for p :: uint8_t
    using unsigned_less [of p] by simp
  from this [of ?pg] entries have pg: "unat ?pg < length (g_pmt (pmt s))"
    by simp
  obtain r where sr: "tlb_search (tlb ?s) ?pg = Inr r"
    using slots(1) h by (simp add: tlb_search_def hashCode_def)
  obtain q where pr: "pmt_search (pmt ?s) ?pg = Inr q"
    using pg by (simp add: pmt_search_def)
  have ins: "\<exists>tb. tlb_insert (tlb ?s) ?pg f = Inr tb" for f
    using slots(1) h by (simp add: tlb_insert_def hashCode_def)
  have "\<exists>s' frame. mmu_findframe (Block c) ?s logical = Inr (s', frame)"
  proof (cases r)
    case TLB_HIT
    with sr show ?thesis
      using mmu_findframe_hit [of ?s logical "Block c"] by simp
  next
    case TLB_MISS
    with sr have miss: "tlb_search (tlb ?s) ?pg = Inr TLB_MISS" by simp
    show ?thesis
    proof (cases q)
      case PAGE_SUCCESS
      with pr miss show ?thesis
        using mmu_findframe_found [of ?s logical "Block c"] by auto
    next
      case PAGE_FAULT
      with pr have fault: "pmt_search (pmt ?s) ?pg = Inr PAGE_FAULT" by simp
      let ?got = "take (unat ?n) (drop (unat (ucast ?pg * ?n)) (contents (backing s)))"
      have bs: "backingstore_get (Block c) (backing ?s) ?pg (pmt_page_n (pmt ?s)) =
                  Inr (?got, (backing s)\<lparr>pos := unat (ucast ?pg * ?n) + unat ?n\<rparr>)"
        using backingstore_get_full [OF bytes seek stored] by (simp add: pmt_page_n_def)
      have len: "length ?got = unat ?n"
        using stored by simp
      have "\<exists>ph. physical_insert (physical s) ?got ?n = Inr ph"
        using room len by (intro physical_insert_fits) simp_all
      then obtain ph where ph: "physical_insert (physical ?s) ?got (pmt_page_n (pmt ?s)) = Inr ph"
        by (auto simp: pmt_page_n_def)
      obtain pt where pt: "pmt_insert (pmt ?s) ?pg (physical_index ph) = Inr pt"
        using pg by (simp add: pmt_insert_def)
      from ins [of "physical_index ph"] obtain tb where
        tb: "tlb_insert (tlb ?s) ?pg (physical_index ph) = Inr tb" ..
      show ?thesis
        using miss fault bs ph pt tb by (simp add: mmu_findframe_def Let_def)
    qed
  qed
  then show ?thesis
    using init by (auto simp: mmu_getphysical_def Let_def)
qed

theorem translation_returns_witness:
  "\<exists>s' pa. mmu_getphysical (Block zero_fill) sample_after_17 0x0233 = Inr (s', pa)"
proof -
  have po: "page_offset 0x0233 = \<lparr>page = 2, offset = 0x33\<rparr>"
    by (simp add: page_offset_def)
  have a: "mmu_initialized sample_after_17" "TLB_SIZE (tlb sample_after_17) \<noteq> 0"
    "unat (TLB_SIZE (tlb sample_after_17)) \<le> length (g_tlb (tlb sample_after_17))"
    "256 \<le> length (g_pmt (pmt sample_after_17))" "PAGE_N (pmt sample_after_17) \<noteq> 0"
    by (simp_all add: sample_after_17_def)
  have b: "0 \<le> sint (ucast (page (page_offset 0x0233)) * PAGE_N (pmt sample_after_17))"
    by (simp add: po sample_after_17_def)
  have c: "unat (ucast (page (page_offset 0x0233)) * PAGE_N (pmt sample_after_17))
             + unat (PAGE_N (pmt sample_after_17)) \<le> length (contents (backing sample_after_17))"
    by (simp add: po sample_after_17_def sample_store_def)
  have d: "unat (FRAME_N (physical sample_after_17) * ucast (g_physical_index (physical sample_after_17) + 1))
             + unat (PAGE_N (pmt sample_after_17)) \<le> length (g_physical (physical sample_after_17))"
    by (simp add: sample_after_17_def)
  from translation_returns [OF a b c d] show ?thesis .
qed

subsection \<open>Reading the backing store\<close>

text \<open>
  What a page fault reads: \<open>PAGE_N\<close> bytes of the backing store from the byte offset
  \<open>page * PAGE_N\<close> on, which it copies to physical memory at the offset of the new frame,
  leaving the stream behind the bytes read.
\<close>

theorem fault_copies_page_n_bytes:
  assumes miss: "tlb_search (tlb s) (page (page_offset logical)) = Inr TLB_MISS"
    and fault: "pmt_search (pmt s) (page (page_offset logical)) = Inr PAGE_FAULT"
    and seek: "0 \<le> sint (ucast (page (page_offset logical)) * PAGE_N (pmt s))"
    and ret: "mmu_getphysical heap s logical = Inr (s', pa)"
  shows "take (unat (PAGE_N (pmt s)))
           (drop (unat (FRAME_N (physical s) * ucast (g_physical_index (physical s) + 1)))
              (g_physical (physical s')))
         = take (unat (PAGE_N (pmt s)))
             (drop (unat (ucast (page (page_offset logical)) * PAGE_N (pmt s)))
                (contents (backing s)))
       \<and> unat (ucast (page (page_offset logical)) * PAGE_N (pmt s)) + unat (PAGE_N (pmt s))
           \<le> length (contents (backing s))
       \<and> pos (backing s')
           = unat (ucast (page (page_offset logical)) * PAGE_N (pmt s)) + unat (PAGE_N (pmt s))"
proof -
  let ?pg = "page (page_offset logical)"
  let ?s = "s\<lparr>g_translated := g_translated s + 1\<rparr>"
  let ?n = "PAGE_N (pmt s)"
  from ret obtain frame where ff: "mmu_findframe heap ?s logical = Inr (s', frame)"
    by (auto simp: mmu_getphysical_Inr)
  have miss': "tlb_search (tlb ?s) ?pg = Inr TLB_MISS" and fault': "pmt_search (pmt ?s) ?pg = Inr PAGE_FAULT"
    using miss fault by simp_all
  from mmu_findframe_fault [OF miss' fault' ff] obtain got g ph pt tb where
        bs: "backingstore_get heap (backing s) ?pg ?n = Inr (got, g)"
    and ins: "physical_insert (physical s) got ?n = Inr ph"
    and s': "s' = ?s\<lparr>g_pagefault := g_pagefault ?s + 1, backing := g, physical := ph, pmt := pt, tlb := tb\<rparr>"
    by (auto simp: pmt_page_n_def)
  have at: "fseek (backing s) (ucast ?pg * ?n) = (backing s)\<lparr>pos := unat (ucast ?pg * ?n)\<rparr>"
    using seek by (simp add: fseek_def)
  have got: "got = take (unat ?n) (drop (unat (ucast ?pg * ?n)) (contents (backing s)))"
    using backingstore_get_Inr(3) [OF bs] by (simp add: at)
  have fits: "unat (ucast ?pg * ?n) + unat ?n \<le> length (contents (backing s))"
    using backingstore_get_Inr(4) [OF bs] by (simp add: at)
  have g: "pos g = unat (ucast ?pg * ?n) + unat ?n"
    using backingstore_get_Inr(5) [OF bs] by (simp add: at)
  have len: "length got = unat ?n"
    by (rule backingstore_get_Inr(1) [OF bs])
  have "take (unat ?n)
          (drop (unat (FRAME_N (physical s) * ucast (g_physical_index (physical s) + 1))) (g_physical ph))
        = take (unat ?n) got"
    by (rule physical_insert_copy [OF ins])
  also have "\<dots> = got"
    using len by simp
  finally show ?thesis
    using got fits g by (simp add: s')
qed

theorem fault_copies_page_n_bytes_witness:
  "take 256 (drop 256 (g_physical (physical sample_after_17))) = take 256 (drop 4352 sample_store)
   \<and> 4352 + 256 \<le> length sample_store
   \<and> pos (backing sample_after_17) = 4352 + 256"
proof -
  have pg: "page (page_offset 0x1100) = 17"
    by (simp add: page_offset_1100)
  have miss: "tlb_search (tlb sample_after_1) (page (page_offset 0x1100)) = Inr TLB_MISS"
    by (simp add: pg tlb_search_def hashCode_def sample_after_1_def)
  have fault: "pmt_search (pmt sample_after_1) (page (page_offset 0x1100)) = Inr PAGE_FAULT"
    by (simp add: pg pmt_search_def sample_after_1_def)
  have seek: "0 \<le> sint (ucast (page (page_offset 0x1100)) * PAGE_N (pmt sample_after_1))"
    by (simp add: pg sample_after_1_def)
  have vals: "unat (PAGE_N (pmt sample_after_1)) = 256"
    "unat (FRAME_N (physical sample_after_1) * ucast (g_physical_index (physical sample_after_1) + 1)) = 256"
    "unat (17 * PAGE_N (pmt sample_after_1)) = 4352"
    "contents (backing sample_after_1) = sample_store"
    "length sample_store = 65536"
    by (simp_all add: sample_after_1_def sample_store_def)
  from fault_copies_page_n_bytes [OF miss fault seek sample_run_17] show ?thesis
    by (simp add: pg vals)
qed

text \<open>
  When the backing store ends before the last of those bytes, the translation ends the
  process with \<^verbatim>\<open>exit(EXIT_FAILURE)\<close>.
\<close>

theorem short_read_is_fatal:
  assumes init: "mmu_initialized s"
    and miss: "tlb_search (tlb s) (page (page_offset logical)) = Inr TLB_MISS"
    and fault: "pmt_search (pmt s) (page (page_offset logical)) = Inr PAGE_FAULT"
    and short: "length (contents (backing s))
                  < pos (fseek (backing s) (ucast (page (page_offset logical)) * PAGE_N (pmt s)))
                    + unat (PAGE_N (pmt s))"
  shows "mmu_getphysical heap s logical = Inl Exit_failure"
  using init miss fault backingstore_get_short [OF short, of heap]
  by (simp add: mmu_getphysical_def mmu_findframe_def Let_def pmt_page_n_def)

theorem short_read_is_fatal_witness:
  "mmu_getphysical (Block zero_fill)
     (sample_boot\<lparr>backing := \<lparr>contents = replicate 300 7, pos = 0\<rparr>\<rparr>) 0x0100
   = Inl Exit_failure"
proof -
  let ?s = "sample_boot\<lparr>backing := \<lparr>contents = replicate 300 7, pos = 0\<rparr>\<rparr>"
  have pg: "page (page_offset 0x0100) = 1"
    by (simp add: page_offset_0100)
  have init: "mmu_initialized ?s"
    by (simp add: sample_boot_def)
  have miss: "tlb_search (tlb ?s) (page (page_offset 0x0100)) = Inr TLB_MISS"
    by (simp add: pg tlb_search_def hashCode_def sample_boot_def)
  have fault: "pmt_search (pmt ?s) (page (page_offset 0x0100)) = Inr PAGE_FAULT"
    by (simp add: pg pmt_search_def sample_boot_def)
  have short: "length (contents (backing ?s))
                  < pos (fseek (backing ?s) (ucast (page (page_offset 0x0100)) * PAGE_N (pmt ?s)))
                    + unat (PAGE_N (pmt ?s))"
    by (simp add: pg fseek_def sample_boot_def)
  from short_read_is_fatal [OF init miss fault short] show ?thesis .
qed

section \<open>Page faults, the page table and the buffer\<close>

text \<open>The run with 4294967295 frames of 4 bytes.\<close>

lemma huge_boot_init:
  "init_mmu (Some sample_store) (Block zero_fill) (Block zero_fill) (Block tlb_zero_fill)
      256 256 4294967295 4 16 = Inr huge_boot"
  by (simp add: init_mmu_def init_physical_Block init_backingstore_def init_pmt_Block
        init_tlb_Block zero_fill_upt huge_boot_def del: upt_rec_numeral)

lemma huge_run_17:
  "mmu_getphysical (Block zero_fill) huge_boot 0x1100 = Inr (huge_after_17, 0)"
  by (simp add: run_defs page_offset_1100 huge_boot_def huge_after_17_def sample_store_def)

lemma huge_run_1:
  "mmu_getphysical (Block zero_fill) huge_after_17 0x0100 = Inr (huge_after_1, 0xFFFFFFFF)"
  by (simp add: run_defs page_offset_0100 huge_after_17_def huge_after_1_def sample_store_def)

lemma huge_run_17_again:
  "mmu_getphysical Null huge_after_1 0x1100 = Inr (huge_after_17_again, 0)"
  by (simp add: run_defs page_offset_1100 huge_after_1_def huge_after_17_again_def sample_store_def)

lemma third_base: "(8589934590 :: uint32_t) = 4294967294"
  by (simp add: word_eq_iff_unsigned [where ?'a = nat])

lemma huge_run_1_again:
  "mmu_getphysical (Block zero_fill) huge_after_17_again 0x0100 = Inr (huge_after_1_again, 0xFFFFFFFE)"
  by (simp add: run_defs page_offset_0100 huge_after_1_def huge_after_17_again_def
        huge_after_1_again_def sample_store_def third_base)

text \<open>What a translation that took the page-fault path leaves behind.\<close>

lemma fault_path_state:
  assumes "tlb_search (tlb s) (page (page_offset logical)) = Inr TLB_MISS"
    and "pmt_search (pmt s) (page (page_offset logical)) = Inr PAGE_FAULT"
    and "mmu_getphysical heap s logical = Inr (s', pa)"
  shows "g_pagefault s' = g_pagefault s + 1"
    and "pmt_get (pmt s') (page (page_offset logical)) = Inr (physical_index (physical s'))"
    and "tlb_search (tlb s') (page (page_offset logical)) = Inr TLB_HIT"
    and "tlb_get (tlb s') (page (page_offset logical)) = Inr (physical_index (physical s'))"
    and "pa = physical_index (physical s') + ucast (offset (page_offset logical))"
    and "pmt_search (pmt s') (page (page_offset logical))
           = Inr (if physical_index (physical s') = - 1 then PAGE_FAULT else PAGE_SUCCESS)"
    and "length (g_physical (physical s)) < 4294967295 \<Longrightarrow> physical_index (physical s') \<noteq> - 1"
proof -
  let ?s = "s\<lparr>g_translated := g_translated s + 1\<rparr>"
  let ?pg = "page (page_offset logical)"
  from assms(3) obtain frame where
        ff: "mmu_findframe heap ?s logical = Inr (s', frame)"
    and pa: "pa = frame + ucast (offset (page_offset logical))"
    by (auto simp: mmu_getphysical_Inr)
  have miss: "tlb_search (tlb ?s) ?pg = Inr TLB_MISS" and flt: "pmt_search (pmt ?s) ?pg = Inr PAGE_FAULT"
    using assms(1,2) by simp_all
  from mmu_findframe_fault [OF miss flt ff] obtain got g ph pt tb where
        ins: "physical_insert (physical s) got (pmt_page_n (pmt s)) = Inr ph"
    and fr: "frame = physical_index ph"
    and pi: "pmt_insert (pmt s) ?pg frame = Inr pt"
    and ti: "tlb_insert (tlb s) ?pg frame = Inr tb"
    and s': "s' = ?s\<lparr>g_pagefault := g_pagefault ?s + 1, backing := g, physical := ph, pmt := pt, tlb := tb\<rparr>"
    by auto
  have ph: "physical s' = ph" and pt: "pmt s' = pt" and tb: "tlb s' = tb"
    using s' by simp_all
  show "g_pagefault s' = g_pagefault s + 1"
    using s' by simp
  show "pmt_get (pmt s') ?pg = Inr (physical_index (physical s'))"
    using pmt_insert_get [OF pi] fr by (simp add: ph pt)
  show "tlb_search (tlb s') ?pg = Inr TLB_HIT"
    using tlb_insert_hit [OF ti] by (simp add: tb)
  show "tlb_get (tlb s') ?pg = Inr (physical_index (physical s'))"
    using tlb_insert_hit [OF ti] fr by (simp add: ph tb)
  show "pa = physical_index (physical s') + ucast (offset (page_offset logical))"
    using pa fr by (simp add: ph)
  show "pmt_search (pmt s') ?pg
           = Inr (if physical_index (physical s') = - 1 then PAGE_FAULT else PAGE_SUCCESS)"
    using pmt_insert_search [OF pi] fr by (simp add: ph pt)
  show "physical_index (physical s') \<noteq> - 1" if "length (g_physical (physical s)) < 4294967295"
    using physical_insert_base_small [OF ins that] by (simp add: ph)
qed

text \<open>
  Claim C8, as amended. When a translation takes the page-fault path (a miss in the
  lookaside buffer and an unmapped page-table entry) and returns, the fault counter has
  gone up by one, and the page-table entry of the page and the buffer slot of the page
  both hold the frame base that the allocation returned, which is also the base of the
  physical address. The buffer maps the page to that base; the page table does so unless
  the base is \<^verbatim>\<open>0xFFFFFFFF\<close>, and a frame base inside a physical memory of fewer than
  4294967295 bytes never is.

  As stated the claim fails on the base \<^verbatim>\<open>0xFFFFFFFF\<close>, which as an \<^verbatim>\<open>int32_t\<close> is the
  \<^verbatim>\<open>-1\<close> that marks an unmapped entry. With 4294967295 frames of 4 bytes the second
  allocation has that base: after the fault on page 1 the buffer maps page 1 to
  \<^verbatim>\<open>0xFFFFFFFF\<close> while the page table reports the page as not mapped.
\<close>

theorem fault_leaves_same_base_in_table_and_buffer:
  assumes "tlb_search (tlb s) (page (page_offset logical)) = Inr TLB_MISS"
    and "pmt_search (pmt s) (page (page_offset logical)) = Inr PAGE_FAULT"
    and "mmu_getphysical heap s logical = Inr (s', pa)"
  shows "g_pagefault s' = g_pagefault s + 1
       \<and> pmt_get (pmt s') (page (page_offset logical)) = Inr (physical_index (physical s'))
       \<and> tlb_search (tlb s') (page (page_offset logical)) = Inr TLB_HIT
       \<and> tlb_get (tlb s') (page (page_offset logical)) = Inr (physical_index (physical s'))
       \<and> pa = physical_index (physical s') + ucast (offset (page_offset logical))
       \<and> pmt_search (pmt s') (page (page_offset logical))
           = Inr (if physical_index (physical s') = - 1 then PAGE_FAULT else PAGE_SUCCESS)
       \<and> (length (g_physical (physical s)) < 4294967295 \<longrightarrow> physical_index (physical s') \<noteq> - 1)"
  using fault_path_state [OF assms] by simp

theorem fault_same_base_witness:
  "tlb_search (tlb sample_after_1) 17 = Inr TLB_MISS
   \<and> pmt_search (pmt sample_after_1) 17 = Inr PAGE_FAULT
   \<and> mmu_getphysical (Block zero_fill) sample_after_1 0x1100 = Inr (sample_after_17, 256)
   \<and> g_pagefault sample_after_17 = g_pagefault sample_after_1 + 1
   \<and> physical_index (physical sample_after_17) = 256
   \<and> pmt_get (pmt sample_after_17) 17 = Inr 256
   \<and> tlb_search (tlb sample_after_17) 17 = Inr TLB_HIT
   \<and> tlb_get (tlb sample_after_17) 17 = Inr 256
   \<and> length (g_physical (physical sample_after_1)) < 4294967295
   \<and> pmt_search (pmt sample_after_17) 17 = Inr PAGE_SUCCESS"
proof -
  have pg: "page (page_offset 0x1100) = 17" and off: "offset (page_offset 0x1100) = 0"
    by (simp_all add: page_offset_1100)
  have miss: "tlb_search (tlb sample_after_1) (page (page_offset 0x1100)) = Inr TLB_MISS"
    by (simp add: pg tlb_search_def hashCode_def sample_after_1_def)
  have fault: "pmt_search (pmt sample_after_1) (page (page_offset 0x1100)) = Inr PAGE_FAULT"
    by (simp add: pg pmt_search_def sample_after_1_def)
  have base: "physical_index (physical sample_after_17) = 256"
    by (simp add: physical_index_def sample_after_17_def)
  have small: "length (g_physical (physical sample_after_1)) < 4294967295"
    by (simp add: sample_after_1_def)
  from fault_leaves_same_base_in_table_and_buffer [OF miss fault sample_run_17] miss fault
    sample_run_17 small
  show ?thesis
    by (simp add: pg off base)
qed

theorem fault_at_base_FFFFFFFF_counterexample:
  "init_mmu (Some sample_store) (Block zero_fill) (Block zero_fill) (Block tlb_zero_fill)
      256 256 4294967295 4 16 = Inr huge_boot
   \<and> mmu_getphysical (Block zero_fill) huge_boot 0x1100 = Inr (huge_after_17, 0)
   \<and> tlb_search (tlb huge_after_17) 1 = Inr TLB_MISS
   \<and> pmt_search (pmt huge_after_17) 1 = Inr PAGE_FAULT
   \<and> mmu_getphysical (Block zero_fill) huge_after_17 0x0100 = Inr (huge_after_1, 0xFFFFFFFF)
   \<and> g_pagefault huge_after_1 = g_pagefault huge_after_17 + 1
   \<and> physical_index (physical huge_after_1) = 0xFFFFFFFF
   \<and> tlb_search (tlb huge_after_1) 1 = Inr TLB_HIT
   \<and> tlb_get (tlb huge_after_1) 1 = Inr 0xFFFFFFFF
   \<and> pmt_search (pmt huge_after_1) 1 = Inr PAGE_FAULT"
proof -
  have before: "tlb_search (tlb huge_after_17) 1 = Inr TLB_MISS"
    "pmt_search (pmt huge_after_17) 1 = Inr PAGE_FAULT"
    by (simp_all add: tlb_search_def hashCode_def pmt_search_def huge_after_17_def)
  have after: "g_pagefault huge_after_1 = g_pagefault huge_after_17 + 1"
    "physical_index (physical huge_after_1) = 0xFFFFFFFF"
    "tlb_search (tlb huge_after_1) 1 = Inr TLB_HIT"
    "tlb_get (tlb huge_after_1) 1 = Inr 0xFFFFFFFF"
    "pmt_search (pmt huge_after_1) 1 = Inr PAGE_FAULT"
    by (simp_all add: physical_index_def tlb_search_def tlb_get_def hashCode_def pmt_search_def
          huge_after_17_def huge_after_1_def)
  from huge_boot_init huge_run_17 huge_run_1 before after show ?thesis
    by simp
qed

lemma run_keeps_mappings:
  "mmu_getphysicals s0 reqs = Inr s \<Longrightarrow> pmt_search (pmt s0) p = Inr PAGE_SUCCESS \<Longrightarrow>
   pmt_search (pmt s) p = Inr PAGE_SUCCESS \<and> pmt_get (pmt s) p = pmt_get (pmt s0) p"
proof (induction reqs arbitrary: s0)
  case Nil
  then show ?case by simp
next
  case (Cons req reqs)
  from Cons.prems(1) obtain s1 pa where
        one: "mmu_getphysical (fst req) s0 (snd req) = Inr (s1, pa)"
    and rest: "mmu_getphysicals s1 reqs = Inr s"
    by (auto split: sum.splits)
  from page_table_keeps_mappings [OF one Cons.prems(2)]
  have m: "pmt_search (pmt s1) p = Inr PAGE_SUCCESS" and g: "pmt_get (pmt s1) p = pmt_get (pmt s0) p"
    by simp_all
  from Cons.IH [OF rest m] g show ?case
    by simp
qed

lemma mapped_page_after_collision:
  assumes ne: "page (page_offset a1) \<noteq> page (page_offset a2)"
    and slot: "hashCode (tlb s) (page (page_offset a1)) = hashCode (tlb s) (page (page_offset a2))"
    and mapped: "pmt_search (pmt s) (page (page_offset a1)) = Inr PAGE_SUCCESS"
    and second: "mmu_getphysical heap s a2 = Inr (s2, pa2)"
  shows "tlb_search (tlb s2) (page (page_offset a1)) = Inr TLB_MISS
       \<and> pmt_search (pmt s2) (page (page_offset a1)) = Inr PAGE_SUCCESS
       \<and> pmt_get (pmt s2) (page (page_offset a1)) = pmt_get (pmt s) (page (page_offset a1))
       \<and> (\<exists>s3. mmu_getphysical heap' s2 a1 =
                  Inr (s3, g_pmt (pmt s) ! unat (page (page_offset a1)) + ucast (offset (page_offset a1)))
              \<and> g_pagefault s3 = g_pagefault s2
              \<and> g_tlbhit s3 = g_tlbhit s2
              \<and> g_translated s3 = g_translated s2 + 1)"
proof -
  let ?s = "s\<lparr>g_translated := g_translated s + 1\<rparr>"
  let ?p1 = "page (page_offset a1)" and ?p2 = "page (page_offset a2)"
  from second obtain f2 where init: "mmu_initialized s"
    and ff: "mmu_findframe heap ?s a2 = Inr (s2, f2)"
    by (auto simp: mmu_getphysical_Inr)
  have size2: "TLB_SIZE (tlb s2) = TLB_SIZE (tlb s)"
    using ff by (auto simp: mmu_findframe_def Let_def dest: tlb_insert_size
                      split: sum.splits TLB_RESULT.splits PAGE_RESULT.splits)
  have slot2: "hashCode (tlb s2) ?p1 = hashCode (tlb s2) ?p2"
    using slot by (simp add: hashCode_size [OF size2])
  have hit2: "tlb_search (tlb s2) ?p2 = Inr TLB_HIT"
    using mmu_findframe_cached [OF ff] by simp
  have miss1: "tlb_search (tlb s2) ?p1 = Inr TLB_MISS"
    using tlb_search_hit_other [OF hit2 slot2 ne] .
  have pmt2: "pmt_search (pmt s2) ?p1 = Inr PAGE_SUCCESS \<and> pmt_get (pmt s2) ?p1 = pmt_get (pmt s) ?p1"
    using ff mapped ne
    by (auto simp: mmu_findframe_def Let_def dest: pmt_insert_other
             split: sum.splits TLB_RESULT.splits PAGE_RESULT.splits)
  have entry: "g_pmt (pmt s2) ! unat ?p1 = g_pmt (pmt s) ! unat ?p1"
    using pmt2 pmt_search_success_get [OF mapped] pmt_search_success_get [of "pmt s2" ?p1]
    by simp
  have init2: "mmu_initialized s2"
    using mmu_findframe_cached [OF ff] init by simp
  let ?s2 = "s2\<lparr>g_translated := g_translated s2 + 1\<rparr>"
  have "\<exists>tb. mmu_findframe heap' ?s2 a1 = Inr (?s2\<lparr>tlb := tb\<rparr>, g_pmt (pmt ?s2) ! unat ?p1)"
    using mmu_findframe_found [of ?s2 a1 heap'] miss1 pmt2 by auto
  then obtain tb where
    "mmu_findframe heap' ?s2 a1 = Inr (?s2\<lparr>tlb := tb\<rparr>, g_pmt (pmt s) ! unat ?p1)"
    using entry by auto
  then have "mmu_getphysical heap' s2 a1 =
      Inr (?s2\<lparr>tlb := tb\<rparr>, g_pmt (pmt s) ! unat ?p1 + ucast (offset (page_offset a1)))"
    using init2 by (simp add: mmu_getphysical_def Let_def)
  then show ?thesis
    using miss1 pmt2 by simp
qed

text \<open>
  Claim C7, as amended. Let two distinct pages share a buffer slot, and let the first have
  been faulted in with a frame base other than \<^verbatim>\<open>0xFFFFFFFF\<close>: a translation of it took the
  page-fault path and returned. After any further translations, once the second page has
  been translated, the first page is not in the buffer, the page table still maps it to
  the frame base of that fault, and the next translation of the first page returns the
  physical address the fault returned, without counting a page fault or a buffer hit.

  As stated the claim fails for a page that was faulted in with the base \<^verbatim>\<open>0xFFFFFFFF\<close>.
  With 4294967295 frames of 4 bytes, page 17 and then page 1 are faulted in, page 1 with
  that base; translating page 17 again evicts page 1 from the buffer, and the next
  translation of page 1 finds it unmapped and counts a third page fault.
\<close>

theorem evicted_page_resolves_through_page_table:
  assumes miss1: "tlb_search (tlb s0) (page (page_offset a1)) = Inr TLB_MISS"
    and fault1: "pmt_search (pmt s0) (page (page_offset a1)) = Inr PAGE_FAULT"
    and first: "mmu_getphysical heap0 s0 a1 = Inr (s1, pa1)"
    and base: "physical_index (physical s1) \<noteq> - 1"
    and between: "mmu_getphysicals s1 reqs = Inr s"
    and ne: "page (page_offset a1) \<noteq> page (page_offset a2)"
    and slot: "hashCode (tlb s) (page (page_offset a1)) = hashCode (tlb s) (page (page_offset a2))"
    and second: "mmu_getphysical heap s a2 = Inr (s2, pa2)"
  shows "tlb_search (tlb s2) (page (page_offset a1)) = Inr TLB_MISS
       \<and> pmt_search (pmt s2) (page (page_offset a1)) = Inr PAGE_SUCCESS
       \<and> pmt_get (pmt s2) (page (page_offset a1)) = Inr (physical_index (physical s1))
       \<and> (\<exists>s3. mmu_getphysical heap' s2 a1 = Inr (s3, pa1)
              \<and> g_pagefault s3 = g_pagefault s2
              \<and> g_tlbhit s3 = g_tlbhit s2
              \<and> g_translated s3 = g_translated s2 + 1)"
proof -
  let ?p1 = "page (page_offset a1)"
  have m1: "pmt_search (pmt s1) ?p1 = Inr PAGE_SUCCESS"
    using fault_path_state(6) [OF miss1 fault1 first] base by simp
  have g1: "pmt_get (pmt s1) ?p1 = Inr (physical_index (physical s1))"
    by (rule fault_path_state(2) [OF miss1 fault1 first])
  have pa1: "pa1 = physical_index (physical s1) + ucast (offset (page_offset a1))"
    by (rule fault_path_state(5) [OF miss1 fault1 first])
  from run_keeps_mappings [OF between m1] g1
  have m: "pmt_search (pmt s) ?p1 = Inr PAGE_SUCCESS"
    and g: "pmt_get (pmt s) ?p1 = Inr (physical_index (physical s1))"
    by simp_all
  have entry: "g_pmt (pmt s) ! unat ?p1 = physical_index (physical s1)"
    using pmt_search_success_get [OF m] g by simp
  from mapped_page_after_collision [OF ne slot m second, of heap'] show ?thesis
    by (simp add: entry g pa1)
qed

theorem evicted_page_witness:
  "tlb_search (tlb sample_boot) 1 = Inr TLB_MISS
   \<and> pmt_search (pmt sample_boot) 1 = Inr PAGE_FAULT
   \<and> mmu_getphysical (Block zero_fill) sample_boot 0x0100 = Inr (sample_after_1, 0)
   \<and> physical_index (physical sample_after_1) = 0
   \<and> hashCode (tlb sample_after_1) 1 = hashCode (tlb sample_after_1) 17
   \<and> mmu_getphysical (Block zero_fill) sample_after_1 0x1100 = Inr (sample_after_17, 256)
   \<and> tlb_search (tlb sample_after_17) 1 = Inr TLB_MISS
   \<and> pmt_search (pmt sample_after_17) 1 = Inr PAGE_SUCCESS
   \<and> pmt_get (pmt sample_after_17) 1 = Inr 0
   \<and> (\<exists>s3. mmu_getphysical Null sample_after_17 0x0100 = Inr (s3, 0)
          \<and> g_pagefault s3 = g_pagefault sample_after_17
          \<and> g_tlbhit s3 = g_tlbhit sample_after_17
          \<and> g_translated s3 = g_translated sample_after_17 + 1)"
proof -
  have pg1: "page (page_offset 0x0100) = 1" and off1: "offset (page_offset 0x0100) = 0"
    by (simp_all add: page_offset_0100)
  have pg17: "page (page_offset 0x1100) = 17"
    by (simp add: page_offset_1100)
  have miss1: "tlb_search (tlb sample_boot) (page (page_offset 0x0100)) = Inr TLB_MISS"
    by (simp add: pg1 tlb_search_def hashCode_def sample_boot_def)
  have fault1: "pmt_search (pmt sample_boot) (page (page_offset 0x0100)) = Inr PAGE_FAULT"
    by (simp add: pg1 pmt_search_def sample_boot_def)
  have base0: "physical_index (physical sample_after_1) = 0"
    by (simp add: physical_index_def sample_after_1_def)
  have base: "physical_index (physical sample_after_1) \<noteq> - 1"
    by (simp add: base0)
  have between: "mmu_getphysicals sample_after_1 [] = Inr sample_after_1"
    by simp
  have ne: "page (page_offset 0x0100) \<noteq> page (page_offset 0x1100)"
    by (simp add: pg1 pg17)
  have slot: "hashCode (tlb sample_after_1) (page (page_offset 0x0100))
            = hashCode (tlb sample_after_1) (page (page_offset 0x1100))"
    by (simp add: pg1 pg17 hashCode_def sample_after_1_def)
  from evicted_page_resolves_through_page_table
         [OF miss1 fault1 sample_run_1 base between ne slot sample_run_17, of Null]
    miss1 fault1 sample_run_1 slot sample_run_17
  show ?thesis
    by (simp add: pg1 pg17 off1 base0)
qed

theorem evicted_page_faults_again_counterexample:
  "init_mmu (Some sample_store) (Block zero_fill) (Block zero_fill) (Block tlb_zero_fill)
      256 256 4294967295 4 16 = Inr huge_boot
   \<and> mmu_getphysicals huge_boot [(Block zero_fill, 0x1100), (Block zero_fill, 0x0100)]
       = Inr huge_after_1
   \<and> g_pagefault huge_boot = 0 \<and> g_pagefault huge_after_1 = 2
   \<and> hashCode (tlb huge_after_1) 1 = hashCode (tlb huge_after_1) 17
   \<and> tlb_search (tlb huge_after_1) 1 = Inr TLB_HIT
   \<and> mmu_getphysical Null huge_after_1 0x1100 = Inr (huge_after_17_again, 0)
   \<and> tlb_search (tlb huge_after_17_again) 17 = Inr TLB_HIT
   \<and> tlb_search (tlb huge_after_17_again) 1 = Inr TLB_MISS
   \<and> pmt_search (pmt huge_after_17_again) 1 = Inr PAGE_FAULT
   \<and> g_pagefault huge_after_17_again = 2
   \<and> mmu_getphysical (Block zero_fill) huge_after_17_again 0x0100
       = Inr (huge_after_1_again, 0xFFFFFFFE)
   \<and> g_pagefault huge_after_1_again = 3"
proof -
  have run: "mmu_getphysicals huge_boot [(Block zero_fill, 0x1100), (Block zero_fill, 0x0100)]
       = Inr huge_after_1"
    by (simp add: huge_run_17 huge_run_1)
  have facts: "g_pagefault huge_boot = 0" "g_pagefault huge_after_1 = 2"
    "hashCode (tlb huge_after_1) 1 = hashCode (tlb huge_after_1) 17"
    "tlb_search (tlb huge_after_1) 1 = Inr TLB_HIT"
    "tlb_search (tlb huge_after_17_again) 17 = Inr TLB_HIT"
    "tlb_search (tlb huge_after_17_again) 1 = Inr TLB_MISS"
    "pmt_search (pmt huge_after_17_again) 1 = Inr PAGE_FAULT"
    "g_pagefault huge_after_17_again = 2"
    "g_pagefault huge_after_1_again = 3"
    by (simp_all add: tlb_search_def hashCode_def pmt_search_def huge_boot_def huge_after_1_def
          huge_after_17_again_def huge_after_1_again_def)
  from huge_boot_init run huge_run_17_again huge_run_1_again facts show ?thesis
    by simp
qed

section \<open>Frame allocation\<close>































end
